theory Spec2Isabelle
  imports Complex_Main "HOL-Library.Log_Nat"
begin

section \<open>JavaScript values used by the profile aggregator\<close>

text \<open>
  The aggregator lives in \<^verbatim>\<open>src/user-manager.js\<close> (class \<^verbatim>\<open>UserManager\<close>):
  \<^verbatim>\<open>saveSessionResults\<close>, \<^verbatim>\<open>updateSkills\<close>, \<^verbatim>\<open>calculateStreak\<close>,
  \<^verbatim>\<open>checkAchievements\<close> and \<^verbatim>\<open>getAchievementsToCheck\<close>.

  A JavaScript number is a binary64 value: a rational (\<open>Fin\<close>), \<^verbatim>\<open>Infinity\<close>,
  \<^verbatim>\<open>-Infinity\<close> or \<^verbatim>\<open>NaN\<close>. The two zeros are one value.
\<close>

datatype jsnum = Fin rat | PInf | NInf | NaN

subsection \<open>Rounding to binary64\<close>

text \<open>The exponent of a non-zero rational: the \<open>e\<close> with \<open>2^e \<le> |q| < 2^(e+1)\<close>, found from
  the bit lengths of the numerator and the denominator.\<close>

definition ilog2 :: "rat \<Rightarrow> int" where
  "ilog2 q = (let (a, b) = quotient_of \<bar>q\<bar>; e0 = bitlen a - bitlen b
              in if 2 powi e0 \<le> \<bar>q\<bar> then e0 else e0 - 1)"

definition roundTiesToEven :: "rat \<Rightarrow> int" where
  "roundTiesToEven m = (let f = \<lfloor>m\<rfloor>; d = m - of_int f
      in if d < 1 / 2 then f else if 1 / 2 < d then f + 1 else if even f then f else f + 1)"

text \<open>The distance of two neighbouring binary64 values around \<open>q\<close>: 53 significant bits,
  with the exponent of the subnormal numbers as the least one.\<close>

definition ulp :: "rat \<Rightarrow> rat" where
  "ulp q = 2 powi (max (ilog2 q) (- 1022) - 52)"

definition nearest64 :: "rat \<Rightarrow> rat" where
  "nearest64 q = (if q = 0 then 0 else of_int (roundTiesToEven (q / ulp q)) * ulp q)"

text \<open>The binary64 result of an operation whose exact result is \<open>q\<close>: the nearest value, a
  tie going to the even significand, and an infinity beyond the largest finite value.\<close>

definition overflowBound :: rat where
  "overflowBound = 2 ^ 1024"

definition binary64 :: "rat \<Rightarrow> jsnum" where
  "binary64 q =
     (let v = nearest64 q
      in if overflowBound \<le> v then PInf else if v \<le> - overflowBound then NInf else Fin v)"

text \<open>
  The values read by the aggregator: \<^verbatim>\<open>undefined\<close>, \<^verbatim>\<open>null\<close>, booleans, numbers and plain
  objects (a list of key/value pairs, the first pair of a key being its value). Strings
  are left out: no field the aggregator reads is a string.
\<close>

datatype jsval =
    JUndefined
  | JNull
  | JBool bool
  | JNum jsnum
  | JObj "(string \<times> jsval) list"

datatype error =
    NotLoggedIn    \<comment> \<open>\<^verbatim>\<open>throw new Error('User not logged in')\<close>\<close>
  | TypeError      \<comment> \<open>reading a property of \<^verbatim>\<open>undefined\<close> or \<^verbatim>\<open>null\<close>\<close>
  | NotFound       \<comment> \<open>\<^verbatim>\<open>update\<close> of a document the store does not hold\<close>
  | ProfileNotFound \<comment> \<open>\<^verbatim>\<open>'User profile not found after reload'\<close>\<close>

subsection \<open>Arithmetic on numbers\<close>

fun jadd :: "jsnum \<Rightarrow> jsnum \<Rightarrow> jsnum" where
  "jadd NaN _ = NaN"
| "jadd _ NaN = NaN"
| "jadd (Fin a) (Fin b) = binary64 (a + b)"
| "jadd PInf NInf = NaN"
| "jadd NInf PInf = NaN"
| "jadd PInf _ = PInf"
| "jadd _ PInf = PInf"
| "jadd NInf _ = NInf"
| "jadd _ NInf = NInf"

fun jneg :: "jsnum \<Rightarrow> jsnum" where
  "jneg (Fin a) = Fin (- a)"
| "jneg PInf = NInf"
| "jneg NInf = PInf"
| "jneg NaN = NaN"

text \<open>The difference \<^verbatim>\<open>x - y\<close> is the sum of \<open>x\<close> and the negated \<open>y\<close>.\<close>

definition jsub :: "jsnum \<Rightarrow> jsnum \<Rightarrow> jsnum" where
  "jsub x y = jadd x (jneg y)"

fun jinf_times :: "rat \<Rightarrow> jsnum" where
  "jinf_times a = (if a = 0 then NaN else if 0 < a then PInf else NInf)"

fun jmul :: "jsnum \<Rightarrow> jsnum \<Rightarrow> jsnum" where
  "jmul NaN _ = NaN"
| "jmul _ NaN = NaN"
| "jmul (Fin a) (Fin b) = binary64 (a * b)"
| "jmul PInf (Fin b) = jinf_times b"
| "jmul (Fin a) PInf = jinf_times a"
| "jmul NInf (Fin b) = jneg (jinf_times b)"
| "jmul (Fin a) NInf = jneg (jinf_times a)"
| "jmul PInf PInf = PInf"
| "jmul NInf NInf = PInf"
| "jmul PInf NInf = NInf"
| "jmul NInf PInf = NInf"

text \<open>Division; a zero divisor is the positive zero (the only one the aggregator can
  produce: \<^verbatim>\<open>totalSessions + 1\<close> with \<^verbatim>\<open>totalSessions = -1\<close>).\<close>

fun jdiv :: "jsnum \<Rightarrow> jsnum \<Rightarrow> jsnum" where
  "jdiv NaN _ = NaN"
| "jdiv _ NaN = NaN"
| "jdiv (Fin a) (Fin b) = (if b = 0 then jinf_times a else binary64 (a / b))"
| "jdiv (Fin a) PInf = Fin 0"
| "jdiv (Fin a) NInf = Fin 0"
| "jdiv PInf (Fin b) = (if 0 \<le> b then PInf else NInf)"
| "jdiv NInf (Fin b) = (if 0 \<le> b then NInf else PInf)"
| "jdiv PInf _ = NaN"
| "jdiv NInf _ = NaN"

text \<open>\<^verbatim>\<open>Math.round\<close>: the nearest integer, a tie going up; the result is exact.\<close>

fun jround :: "jsnum \<Rightarrow> jsnum" where
  "jround (Fin a) = Fin (of_int \<lfloor>a + 1 / 2\<rfloor>)"
| "jround x = x"

text \<open>\<^verbatim>\<open>Math.floor\<close>; the result is exact.\<close>

fun jfloor :: "jsnum \<Rightarrow> jsnum" where
  "jfloor (Fin a) = Fin (of_int \<lfloor>a\<rfloor>)"
| "jfloor x = x"

text \<open>\<^verbatim>\<open>Math.min\<close> of two numbers.\<close>

fun jmin :: "jsnum \<Rightarrow> jsnum \<Rightarrow> jsnum" where
  "jmin NaN _ = NaN"
| "jmin _ NaN = NaN"
| "jmin NInf _ = NInf"
| "jmin _ NInf = NInf"
| "jmin PInf y = y"
| "jmin x PInf = x"
| "jmin (Fin a) (Fin b) = Fin (min a b)"

text \<open>The comparison \<^verbatim>\<open>x >= y\<close> of two numbers: false as soon as one is \<^verbatim>\<open>NaN\<close>.\<close>

fun jge :: "jsnum \<Rightarrow> jsnum \<Rightarrow> bool" where
  "jge NaN _ = False"
| "jge _ NaN = False"
| "jge PInf _ = True"
| "jge _ NInf = True"
| "jge NInf _ = False"
| "jge _ PInf = False"
| "jge (Fin a) (Fin b) = (b \<le> a)"

text \<open>\<^verbatim>\<open>ToNumber\<close>, applied by \<^verbatim>\<open>>=\<close> to an operand that is not a number.\<close>

fun toNumber :: "jsval \<Rightarrow> jsnum" where
  "toNumber JUndefined = NaN"
| "toNumber JNull = Fin 0"
| "toNumber (JBool b) = (if b then Fin 1 else Fin 0)"
| "toNumber (JNum n) = n"
| "toNumber (JObj kvs) = NaN"

text \<open>Reading \<^verbatim>\<open>v.k\<close>: a \<^verbatim>\<open>TypeError\<close> on \<^verbatim>\<open>undefined\<close> and \<^verbatim>\<open>null\<close>, \<^verbatim>\<open>undefined\<close> for a
  key the object does not have and for every key of a boolean or a number.\<close>

fun getProp :: "jsval \<Rightarrow> string \<Rightarrow> error + jsval" where
  "getProp JUndefined k = Inl TypeError"
| "getProp JNull k = Inl TypeError"
| "getProp (JObj kvs) k = Inr (case map_of kvs k of None \<Rightarrow> JUndefined | Some v \<Rightarrow> v)"
| "getProp _ k = Inr JUndefined"

section \<open>The stored user document\<close>

text \<open>
  The document of \<^verbatim>\<open>createUserDocument\<close>, without its \<^verbatim>\<open>profile\<close> part and without the
  display strings of an achievement (title, description, icon), which the aggregator
  copies and never reads. A timestamp is an integer number of milliseconds;
  \<^verbatim>\<open>lastSessionDate\<close> is \<^verbatim>\<open>null\<close> (\<open>None\<close>) until the first session.
\<close>

record progress =
  totalSessions :: jsnum
  completedScenarios :: jsnum
  averageScore :: jsnum
  totalTimeSpent :: jsnum
  streak :: jsnum
  lastSessionDate :: "int option"

record achievementRecord =
  unlockedAt :: int

record userDocument =
  progress :: progress
  skills :: jsval
  achievements :: "string \<rightharpoonup> achievementRecord"

text \<open>The session that the caller passes. The score and the duration are numbers;
  \<open>JUndefined\<close> for the gained skills is a session object without that property.\<close>

record sessionData =
  score :: jsnum
  duration :: jsnum
  skillsGained :: jsval

definition initialData :: userDocument where
  "initialData =
     \<lparr> progress = \<lparr> totalSessions = Fin 0, completedScenarios = Fin 0, averageScore = Fin 0,
                    totalTimeSpent = Fin 0, streak = Fin 0, lastSessionDate = None \<rparr>,
       skills = JObj [(''empathy'', JNum (Fin 0)), (''conflictResolution'', JNum (Fin 0)),
                      (''boundaryKeeping'', JNum (Fin 0)), (''patience'', JNum (Fin 0))],
       achievements = Map.empty \<rparr>"

section \<open>updateSkills\<close>

text \<open>The literals \<^verbatim>\<open>0.3\<close> and \<^verbatim>\<open>0.7\<close> are the binary64 values nearest to 3/10 and 7/10.\<close>

definition RECENT_WEIGHT :: jsnum where
  "RECENT_WEIGHT = binary64 (3 / 10)"

definition HISTORY_WEIGHT :: jsnum where
  "HISTORY_WEIGHT = binary64 (7 / 10)"

text \<open>\<^verbatim>\<open>typeof val === 'number' && !isNaN(val) ? val : 0\<close>\<close>

fun getVal :: "jsval \<Rightarrow> jsnum" where
  "getVal (JNum n) = (if n = NaN then Fin 0 else n)"
| "getVal _ = Fin 0"

text \<open>\<^verbatim>\<open>typeof val === 'number' && !isNaN(val) ? val : 50\<close>\<close>

fun getCur :: "jsval \<Rightarrow> jsnum" where
  "getCur (JNum n) = (if n = NaN then Fin 50 else n)"
| "getCur _ = Fin 50"

text \<open>One entry of the returned object:
  \<^verbatim>\<open>Math.min(100, Math.round(getCur(currentSkills.k) * HISTORY_WEIGHT + getVal(sessionSkills.k) * RECENT_WEIGHT))\<close>.
  The current skill is read first, then the gained one.\<close>

definition skillEntry :: "jsval \<Rightarrow> jsval \<Rightarrow> string \<Rightarrow> error + jsnum" where
  "skillEntry currentSkills sessionSkills k =
     (case getProp currentSkills k of
        Inl e \<Rightarrow> Inl e
      | Inr c \<Rightarrow>
          (case getProp sessionSkills k of
             Inl e \<Rightarrow> Inl e
           | Inr g \<Rightarrow>
               Inr (jmin (Fin 100)
                     (jround (jadd (jmul (getCur c) HISTORY_WEIGHT)
                                   (jmul (getVal g) RECENT_WEIGHT))))))"

definition updateSkills :: "jsval \<Rightarrow> jsval \<Rightarrow> jsnum \<Rightarrow> error + jsval" where
  "updateSkills currentSkills sessionSkills sessionCount =
     (case skillEntry currentSkills sessionSkills ''empathy'' of
        Inl e \<Rightarrow> Inl e
      | Inr em \<Rightarrow>
     (case skillEntry currentSkills sessionSkills ''conflictResolution'' of
        Inl e \<Rightarrow> Inl e
      | Inr cr \<Rightarrow>
     (case skillEntry currentSkills sessionSkills ''boundaryKeeping'' of
        Inl e \<Rightarrow> Inl e
      | Inr bk \<Rightarrow>
     (case skillEntry currentSkills sessionSkills ''patience'' of
        Inl e \<Rightarrow> Inl e
      | Inr pa \<Rightarrow>
          Inr (JObj [(''empathy'', JNum em), (''conflictResolution'', JNum cr),
                     (''boundaryKeeping'', JNum bk), (''patience'', JNum pa)])))))"

section \<open>calculateStreak\<close>

text \<open>
  The method takes \<^verbatim>\<open>lastSessionDate\<close> alone and reads the time itself
  (\<^verbatim>\<open>const now = new Date()\<close>). The readings a call can make are the environment of the
  model: the browser's clock and the store's server timestamp, both integer numbers of
  milliseconds.
\<close>

record env =
  clientNow :: int   \<comment> \<open>\<^verbatim>\<open>new Date()\<close>, in milliseconds\<close>
  serverNow :: int   \<comment> \<open>\<^verbatim>\<open>FieldValue.serverTimestamp()\<close>, in milliseconds\<close>

text \<open>The three results: \<^verbatim>\<open>1\<close> (the streak restarts at one), \<^verbatim>\<open>null\<close> (same day, the
  counter is kept) and \<^verbatim>\<open>'increment'\<close>.\<close>

datatype streakUpdate = ResetToOne | SameDay | Increment

definition calculateStreak :: "env \<Rightarrow> int option \<Rightarrow> streakUpdate" where
  "calculateStreak e lastSession =
     (case lastSession of
        None \<Rightarrow> ResetToOne
      | Some lastDate \<Rightarrow>
          (let daysDiff = jfloor (jdiv (jsub (Fin (of_int (clientNow e))) (Fin (of_int lastDate)))
                                       (Fin (1000 * 60 * 60 * 24)))
           in if daysDiff = Fin 0 then SameDay
              else if daysDiff = Fin 1 then Increment
              else ResetToOne))"

section \<open>Achievements\<close>

record achievementDefinition =
  achievementId :: string
  requirement :: "userDocument \<Rightarrow> sessionData \<Rightarrow> error + bool"

definition skillAtLeast :: "userDocument \<Rightarrow> string \<Rightarrow> rat \<Rightarrow> error + bool" where
  "skillAtLeast user k bound =
     (case getProp (skills user) k of
        Inl e \<Rightarrow> Inl e
      | Inr v \<Rightarrow> Inr (jge (toNumber v) (Fin bound)))"

definition getAchievementsToCheck :: "achievementDefinition list" where
  "getAchievementsToCheck =
     [ \<lparr> achievementId = ''first_session'',
         requirement = (\<lambda>user session. Inr (jge (totalSessions (progress user)) (Fin 1))) \<rparr>,
       \<lparr> achievementId = ''empathy_master'',
         requirement = (\<lambda>user session. skillAtLeast user ''empathy'' 80) \<rparr>,
       \<lparr> achievementId = ''patient_teacher'',
         requirement = (\<lambda>user session. skillAtLeast user ''patience'' 90) \<rparr>,
       \<lparr> achievementId = ''perfectionist'',
         requirement = (\<lambda>user session. Inr (jge (score session) (Fin 95))) \<rparr>,
       \<lparr> achievementId = ''week_streak'',
         requirement = (\<lambda>user session. Inr (jge (streak (progress user)) (Fin 7))) \<rparr> ]"

text \<open>The loop of \<^verbatim>\<open>checkAchievements\<close> over the table: an achievement the loaded
  document already has is skipped, one whose requirement holds of the loaded document
  and the session is added to \<^verbatim>\<open>updates\<close>; a requirement that throws ends the loop. The
  console message and the analytics event of an unlocked achievement are not modelled.\<close>

fun checkLoop ::
  "userDocument \<Rightarrow> sessionData \<Rightarrow> int \<Rightarrow> achievementDefinition list \<Rightarrow>
   (string \<times> achievementRecord) list \<Rightarrow> error + (string \<times> achievementRecord) list" where
  "checkLoop doc session ts [] updates = Inr updates"
| "checkLoop doc session ts (a # rest) updates =
     (if achievements doc (achievementId a) \<noteq> None
      then checkLoop doc session ts rest updates
      else (case requirement a doc session of
              Inl e \<Rightarrow> Inl e
            | Inr True \<Rightarrow>
                checkLoop doc session ts rest
                  (updates @ [(achievementId a, \<lparr> unlockedAt = ts \<rparr>)])
            | Inr False \<Rightarrow> checkLoop doc session ts rest updates))"

section \<open>The manager, the store and saveSessionResults\<close>

text \<open>
  The state is the manager's \<^verbatim>\<open>currentUser\<close> (its uid) and \<^verbatim>\<open>userDoc\<close> (the document as
  last loaded), the \<^verbatim>\<open>users\<close> collection of the store and the sessions added so far.
  The calls to the store are taken to succeed, except \<^verbatim>\<open>update\<close> of a missing document.
\<close>

record state =
  currentUser :: "string option"
  userDoc :: "userDocument option"
  users :: "string \<rightharpoonup> userDocument"
  sessions :: "(string \<times> sessionData \<times> int) list"

datatype saveResult =
    Success nat      \<comment> \<open>\<^verbatim>\<open>{ success: true, sessionId }\<close>\<close>
  | Failure error    \<comment> \<open>\<^verbatim>\<open>{ success: false, error }\<close>\<close>

text \<open>\<^verbatim>\<open>loadUserData\<close>: the stored document, created first when the store has none.\<close>

definition loadUserData :: "state \<Rightarrow> string \<Rightarrow> state" where
  "loadUserData s userId =
     (case users s userId of
        Some doc \<Rightarrow> s\<lparr> userDoc := Some doc \<rparr>
      | None \<Rightarrow> s\<lparr> users := (users s)(userId \<mapsto> initialData), userDoc := Some initialData \<rparr>)"

text \<open>\<^verbatim>\<open>checkAchievements\<close>: the requirements are evaluated on \<^verbatim>\<open>this.userDoc\<close>, and the
  updates, when there are any, are written to the stored document.\<close>

definition applyUpdates ::
  "(string \<times> achievementRecord) list \<Rightarrow> userDocument \<Rightarrow> userDocument" where
  "applyUpdates updates doc = doc\<lparr> achievements := achievements doc ++ map_of updates \<rparr>"

definition checkAchievements ::
  "env \<Rightarrow> state \<Rightarrow> string \<Rightarrow> userDocument \<Rightarrow> sessionData \<Rightarrow>
   error + (state \<times> string list)" where
  "checkAchievements e s userId loaded session =
     (case checkLoop loaded session (serverNow e) getAchievementsToCheck [] of
        Inl err \<Rightarrow> Inl err
      | Inr updates \<Rightarrow>
          (if updates = [] then Inr (s, [])
           else (case users s userId of
                   None \<Rightarrow> Inl NotFound
                 | Some stored \<Rightarrow>
                     Inr (s\<lparr> users := (users s)(userId \<mapsto> applyUpdates updates stored) \<rparr>,
                          map fst updates))))"

definition newTotalSessions :: "progress \<Rightarrow> jsnum" where
  "newTotalSessions currentProgress = jadd (totalSessions currentProgress) (Fin 1)"

definition newAverageScore :: "progress \<Rightarrow> sessionData \<Rightarrow> jsnum" where
  "newAverageScore currentProgress session =
     jround (jdiv (jadd (jmul (averageScore currentProgress) (totalSessions currentProgress))
                        (score session))
                  (newTotalSessions currentProgress))"

definition newStreak :: "env \<Rightarrow> progress \<Rightarrow> jsnum" where
  "newStreak e currentProgress =
     (let streakUpdate = calculateStreak e (lastSessionDate currentProgress)
      in if streakUpdate = Increment then jadd (streak currentProgress) (Fin 1)
         else if streakUpdate = SameDay then streak currentProgress
         else Fin 1)"

text \<open>The \<^verbatim>\<open>userRef.update\<close> of the progress and the skills: \<^verbatim>\<open>totalSessions\<close>,
  \<^verbatim>\<open>averageScore\<close> and \<^verbatim>\<open>streak\<close> are the values computed from the loaded document,
  \<^verbatim>\<open>completedScenarios\<close> and \<^verbatim>\<open>totalTimeSpent\<close> are incremented in the store.\<close>

definition performUpdate ::
  "env \<Rightarrow> progress \<Rightarrow> sessionData \<Rightarrow> jsval \<Rightarrow> userDocument \<Rightarrow> userDocument" where
  "performUpdate e currentProgress session newSkills stored =
     stored\<lparr> progress :=
               \<lparr> totalSessions = newTotalSessions currentProgress,
                 completedScenarios = jadd (completedScenarios (progress stored)) (Fin 1),
                 averageScore = newAverageScore currentProgress session,
                 totalTimeSpent = jadd (totalTimeSpent (progress stored)) (duration session),
                 streak = newStreak e currentProgress,
                 lastSessionDate = Some (serverNow e) \<rparr>,
             skills := newSkills \<rparr>"

text \<open>The body of the \<^verbatim>\<open>try\<close> block, after the session has been added to \<open>s\<close>; \<open>Inl\<close> is
  the exception that the \<^verbatim>\<open>catch\<close> turns into \<^verbatim>\<open>{ success: false }\<close>, with the state
  reached when it was thrown. The second component of a result lists the ids that
  \<^verbatim>\<open>checkAchievements\<close> unlocked.\<close>

definition tryBody ::
  "env \<Rightarrow> state \<Rightarrow> string \<Rightarrow> userDocument \<Rightarrow> sessionData \<Rightarrow>
   (error \<times> state) + (state \<times> string list)" where
  "tryBody e s userId loaded session =
     (let currentProgress = progress loaded
      in case updateSkills (skills loaded) (skillsGained session)
                (newTotalSessions currentProgress) of
           Inl err \<Rightarrow> Inl (err, s)
         | Inr newSkills \<Rightarrow>
             (case users s userId of
                None \<Rightarrow> Inl (NotFound, s)
              | Some stored \<Rightarrow>
                  (let s1 = s\<lparr> users := (users s)(userId \<mapsto>
                                  performUpdate e currentProgress session newSkills stored) \<rparr>
                   in case checkAchievements e s1 userId loaded session of
                        Inl err \<Rightarrow> Inl (err, s1)
                      | Inr (s2, unlocked) \<Rightarrow> Inr (loadUserData s2 userId, unlocked))))"

text \<open>\<^verbatim>\<open>saveSessionResults\<close>. The result is the thrown error (\<open>Inl\<close>) or the returned
  object; with it come the new state and the ids unlocked by the call.\<close>

definition saveSessionResults ::
  "env \<Rightarrow> state \<Rightarrow> sessionData \<Rightarrow> (error + saveResult) \<times> state \<times> string list" where
  "saveSessionResults e s session =
     (case currentUser s of
        None \<Rightarrow> (Inl NotLoggedIn, s, [])
      | Some userId \<Rightarrow>
          (let s0 = (if userDoc s = None then loadUserData s userId else s)
           in case userDoc s0 of
                None \<Rightarrow> (Inr (Failure ProfileNotFound), s0, [])
              | Some loaded \<Rightarrow>
                  (let s1 = s0\<lparr> sessions := sessions s0 @ [(userId, session, serverNow e)] \<rparr>
                   in case tryBody e s1 userId loaded session of
                        Inl (err, s2) \<Rightarrow> (Inr (Failure err), s2, [])
                      | Inr (s2, unlocked) \<Rightarrow>
                          (Inr (Success (length (sessions s0))), s2, unlocked))))"

section \<open>Vocabulary of the statements\<close>

text \<open>\<^verbatim>\<open>undefined\<close> and \<^verbatim>\<open>null\<close>, the two values whose properties cannot be read.\<close>

fun isNullish :: "jsval \<Rightarrow> bool" where
  "isNullish JUndefined = True"
| "isNullish JNull = True"
| "isNullish _ = False"

text \<open>The day difference of \<^verbatim>\<open>calculateStreak\<close>:
  \<^verbatim>\<open>Math.floor((now - last) / (1000 * 60 * 60 * 24))\<close> on the time values of the two dates.\<close>

definition daysDiff :: "int \<Rightarrow> int \<Rightarrow> jsnum" where
  "daysDiff now lastDate =
     jfloor (jdiv (jsub (Fin (of_int now)) (Fin (of_int lastDate))) (Fin (1000 * 60 * 60 * 24)))"

definition skillNames :: "string list" where
  "skillNames = [''empathy'', ''conflictResolution'', ''boundaryKeeping'', ''patience'']"

text \<open>The operand of an updated skill in words: the value when it is a number other than
  \<^verbatim>\<open>NaN\<close>, the default \<open>d\<close> otherwise.\<close>

definition numberOr :: "rat \<Rightarrow> jsval \<Rightarrow> jsnum" where
  "numberOr d v = (case v of JNum n \<Rightarrow> (if n = NaN then Fin d else n) | _ \<Rightarrow> Fin d)"

text \<open>The operand as claim C5 words it: the value when it is a finite number, the default
  \<open>d\<close> otherwise.\<close>

definition finiteOr :: "rat \<Rightarrow> jsval \<Rightarrow> jsnum" where
  "finiteOr d v = (case v of JNum (Fin q) \<Rightarrow> Fin q | _ \<Rightarrow> Fin d)"

text \<open>The updated skill as the specification words it: the weighted sum is clamped to 100
  first and rounded afterwards.\<close>

definition roundedClampedSkill :: "jsnum \<Rightarrow> jsnum \<Rightarrow> jsnum" where
  "roundedClampedSkill c g =
     jround (jmin (Fin 100) (jadd (jmul c HISTORY_WEIGHT) (jmul g RECENT_WEIGHT)))"

text \<open>A valid entry of a skill map: absent, or an integer between 0 and 100.\<close>

fun validSkillValue :: "jsval \<Rightarrow> bool" where
  "validSkillValue JUndefined = True"
| "validSkillValue (JNum (Fin q)) = (q = of_int \<lfloor>q\<rfloor> \<and> 0 \<le> q \<and> q \<le> 100)"
| "validSkillValue _ = False"

text \<open>The inputs of the scenarios: a manager whose loaded document is the stored one,
  the first-session scenario of the specification (no current skill present), a session
  without gains, and a clock at the start of day \<open>n\<close>.\<close>

definition scenarioDoc :: userDocument where
  "scenarioDoc =
     \<lparr> progress = \<lparr> totalSessions = Fin 0, completedScenarios = Fin 0, averageScore = Fin 0,
                    totalTimeSpent = Fin 0, streak = Fin 0, lastSessionDate = None \<rparr>,
       skills = JObj [], achievements = Map.empty \<rparr>"

definition syncedState :: "string \<Rightarrow> userDocument \<Rightarrow> state" where
  "syncedState userId doc =
     \<lparr> currentUser = Some userId, userDoc = Some doc, users = [userId \<mapsto> doc], sessions = [] \<rparr>"

definition scenarioSession :: sessionData where
  "scenarioSession =
     \<lparr> score = Fin 95, duration = Fin 600,
       skillsGained = JObj [(''empathy'', JNum (Fin 90)), (''patience'', JNum (Fin 95))] \<rparr>"

definition plainSession :: "rat \<Rightarrow> sessionData" where
  "plainSession sc = \<lparr> score = Fin sc, duration = Fin 600, skillsGained = JObj [] \<rparr>"

definition dayEnv :: "int \<Rightarrow> env" where
  "dayEnv n = \<lparr> clientNow = n * 86400000, serverNow = n * 86400000 \<rparr>"

text \<open>The document that the first plain session of score 80, at day 0, leaves for a new
  user.\<close>

definition afterFirst :: userDocument where
  "afterFirst =
     \<lparr> progress = \<lparr> totalSessions = Fin 1, completedScenarios = Fin 1, averageScore = Fin 80,
                    totalTimeSpent = Fin 600, streak = Fin 1, lastSessionDate = Some 0 \<rparr>,
       skills = JObj [(''empathy'', JNum (Fin 0)), (''conflictResolution'', JNum (Fin 0)),
                      (''boundaryKeeping'', JNum (Fin 0)), (''patience'', JNum (Fin 0))],
       achievements = Map.empty \<rparr>"

section \<open>Facts about binary64 rounding\<close>

lemma overflowBound_numeral [code]:
  "overflowBound =
     179769313486231590772930519078902473361797697894230657273430081157732675805500963132708477322407536021120113879871393357658789768814416622492847430639474124377767893424865485276302219601246094119453082952085005768838150682342462881473913110540827237163350510684586298239947245938479716304835356329624224137216"
  by (simp add: overflowBound_def)

lemma powi_of_bitlen:
  fixes a :: int
  assumes "0 < a"
  shows "(2::rat) powi (bitlen a - 1) \<le> of_int a" "(of_int a :: rat) < 2 powi (bitlen a)"
proof -
  have b: "2 ^ nat (bitlen a - 1) \<le> a" "a < 2 ^ nat (bitlen a)"
    using bitlen_bounds[OF assms] by auto
  have pos: "1 \<le> bitlen a" using assms by (auto simp: bitlen_alt_def)
  have "(of_int (2 ^ nat (bitlen a - 1)) :: rat) \<le> of_int a" using b(1) by (simp only: of_int_le_iff)
  then show "(2::rat) powi (bitlen a - 1) \<le> of_int a"
    using pos by (simp add: power_int_def)
  have "(of_int a :: rat) < of_int (2 ^ nat (bitlen a))" using b(2) by (simp only: of_int_less_iff)
  then show "(of_int a :: rat) < 2 powi (bitlen a)"
    using pos by (simp add: power_int_def)
qed

lemma ilog2_bounds:
  assumes "q \<noteq> 0"
  shows "2 powi (ilog2 q) \<le> \<bar>q\<bar>" "\<bar>q\<bar> < 2 powi (ilog2 q + 1)"
proof -
  obtain a b where ab: "quotient_of \<bar>q\<bar> = (a, b)" by (cases "quotient_of \<bar>q\<bar>")
  have bpos: "0 < b" using ab by (rule quotient_of_denom_pos)
  have q: "\<bar>q\<bar> = of_int a / of_int b" using ab by (rule quotient_of_div)
  have "0 < \<bar>q\<bar>" using assms by simp
  then have apos: "0 < a" using q bpos by (simp add: zero_less_divide_iff)
  define e0 where "e0 = bitlen a - bitlen b"
  have la: "(2::rat) powi (bitlen a - 1) \<le> of_int a" "(of_int a :: rat) < 2 powi (bitlen a)"
    using powi_of_bitlen[OF apos] by auto
  have lb: "(2::rat) powi (bitlen b - 1) \<le> of_int b" "(of_int b :: rat) < 2 powi (bitlen b)"
    using powi_of_bitlen[OF bpos] by auto
  have bq: "(0::rat) < of_int b" using bpos by simp
  have lower: "(2::rat) powi (e0 - 1) \<le> \<bar>q\<bar>"
  proof -
    have "(2::rat) powi (e0 - 1) * of_int b \<le> 2 powi (e0 - 1) * 2 powi (bitlen b)"
      using lb(2) by (intro mult_left_mono) auto
    also have "\<dots> = 2 powi (bitlen a - 1)"
      by (simp add: e0_def flip: power_int_add)
    also have "\<dots> \<le> of_int a" by (rule la(1))
    finally show ?thesis unfolding q using bq by (simp add: pos_le_divide_eq)
  qed
  have upper: "\<bar>q\<bar> < (2::rat) powi (e0 + 1)"
  proof -
    have "(of_int a :: rat) < 2 powi (bitlen a)" by (rule la(2))
    also have "\<dots> = 2 powi (e0 + 1) * 2 powi (bitlen b - 1)"
      by (simp add: e0_def flip: power_int_add)
    also have "\<dots> \<le> 2 powi (e0 + 1) * of_int b"
      using lb(1) by (intro mult_left_mono) auto
    finally show ?thesis unfolding q using bq by (simp add: pos_divide_less_eq)
  qed
  have il: "ilog2 q = (if 2 powi e0 \<le> \<bar>q\<bar> then e0 else e0 - 1)"
    by (simp add: ilog2_def ab e0_def)
  show "2 powi (ilog2 q) \<le> \<bar>q\<bar>" using lower by (simp add: il)
  show "\<bar>q\<bar> < 2 powi (ilog2 q + 1)" using upper by (auto simp add: il)
qed


lemma roundTiesToEven_error: "\<bar>of_int (roundTiesToEven m) - m\<bar> \<le> 1 / 2"
proof -
  define f where "f = \<lfloor>m\<rfloor>"
  define d where "d = m - of_int f"
  have d0: "0 \<le> d" and d1: "d < 1" unfolding d_def f_def by linarith+
  have m: "m = of_int f + d" by (simp add: d_def)
  have r: "roundTiesToEven m = (if d < 1 / 2 then f else if 1 / 2 < d then f + 1
                                else if even f then f else f + 1)"
    by (simp add: roundTiesToEven_def Let_def f_def d_def)
  have diff: "of_int (roundTiesToEven m) - m = - d \<or> of_int (roundTiesToEven m) - m = 1 - d"
    unfolding r by (simp add: d_def)
  show ?thesis
  proof (cases "d < 1 / 2")
    case True
    then have "roundTiesToEven m = f" by (simp add: r)
    then have "of_int (roundTiesToEven m) - m = - d" by (simp add: d_def)
    then show ?thesis using d0 True by simp
  next
    case False
    show ?thesis
    proof (cases "1 / 2 < d")
      case True
      then have "roundTiesToEven m = f + 1" by (simp add: r)
      then have "of_int (roundTiesToEven m) - m = 1 - d" by (simp add: d_def)
      then show ?thesis using d1 True by simp
    next
      case half: False
      then have "d = 1 / 2" using False by simp
      then show ?thesis using diff by auto
    qed
  qed
qed

lemma roundTiesToEven_of_int [simp]: "roundTiesToEven (of_int i) = i"
  by (simp add: roundTiesToEven_def)

lemma roundTiesToEven_nonneg: "0 \<le> m \<Longrightarrow> 0 \<le> roundTiesToEven m"
  by (auto simp add: roundTiesToEven_def Let_def)

lemma ulp_pos: "0 < ulp q"
  by (simp add: ulp_def)

lemma ulp_nonzero [simp]: "ulp q \<noteq> 0"
  using ulp_pos[of q] by simp

lemma ulp_nonneg [simp]: "0 \<le> ulp q"
  using ulp_pos[of q] by simp

lemma nearest64_error: "\<bar>nearest64 q - q\<bar> \<le> ulp q / 2"
proof (cases "q = 0")
  case True
  then show ?thesis by (simp add: nearest64_def less_imp_le)
next
  case False
  have "\<bar>of_int (roundTiesToEven (q / ulp q)) - q / ulp q\<bar> * ulp q \<le> 1 / 2 * ulp q"
    by (intro mult_right_mono roundTiesToEven_error) (simp add: less_imp_le)
  moreover have "\<bar>of_int (roundTiesToEven (q / ulp q)) - q / ulp q\<bar> * ulp q
      = \<bar>of_int (roundTiesToEven (q / ulp q)) * ulp q - q\<bar>"
  proof -
    have "\<bar>of_int (roundTiesToEven (q / ulp q)) - q / ulp q\<bar> * \<bar>ulp q\<bar>
      = \<bar>(of_int (roundTiesToEven (q / ulp q)) - q / ulp q) * ulp q\<bar>"
      by (simp only: abs_mult)
    also have "(of_int (roundTiesToEven (q / ulp q)) - q / ulp q) * ulp q
       = of_int (roundTiesToEven (q / ulp q)) * ulp q - q"
      using ulp_pos[of q] by (simp add: left_diff_distrib)
    finally show ?thesis using ulp_pos[of q] by (simp add: abs_of_pos)
  qed
  ultimately show ?thesis using False by (simp add: nearest64_def)
qed

lemma nearest64_nonneg: "0 \<le> q \<Longrightarrow> 0 \<le> nearest64 q"
proof -
  assume "0 \<le> q"
  then have "0 \<le> q / ulp q" by simp
  then have "0 \<le> roundTiesToEven (q / ulp q)" by (rule roundTiesToEven_nonneg)
  then have "0 \<le> (of_int (roundTiesToEven (q / ulp q)) :: rat) * ulp q" by simp
  then show ?thesis by (simp add: nearest64_def)
qed

text \<open>A number with a significand of at most 53 bits and an exponent in range is a
  binary64 value.\<close>

lemma ilog2_less:
  assumes "q \<noteq> 0" "\<bar>q\<bar> < 2 powi k"
  shows "ilog2 q < k"
proof (rule ccontr)
  assume "\<not> ilog2 q < k"
  then have "k \<le> ilog2 q" by simp
  then have "(2::rat) powi k \<le> 2 powi (ilog2 q)" by (intro power_int_increasing) auto
  also have "\<dots> \<le> \<bar>q\<bar>" using ilog2_bounds(1)[OF assms(1)] .
  finally show False using assms(2) by simp
qed

lemma nearest64_representable:
  assumes "q = of_int m * 2 powi k" "\<bar>m\<bar> < 2 ^ 53" "- 1074 \<le> k"
  shows "nearest64 q = q"
proof (cases "q = 0")
  case True
  then show ?thesis by (simp add: nearest64_def)
next
  case False
  have "\<bar>q\<bar> = of_int \<bar>m\<bar> * 2 powi k" by (simp add: assms(1) abs_mult)
  also have "\<dots> < of_int (2 ^ 53) * 2 powi k"
    using assms(2) by (intro mult_strict_right_mono) (simp_all only: of_int_less_iff zero_less_power_int zero_less_numeral)
  also have "\<dots> = 2 powi (53 + k)" by (simp add: power_int_add)
  finally have "ilog2 q < 53 + k" using ilog2_less[OF False] by blast
  then have e: "max (ilog2 q) (- 1022) - 52 \<le> k" using assms(3) by simp
  define j where "j = k - (max (ilog2 q) (- 1022) - 52)"
  have j0: "0 \<le> j" using e by (simp add: j_def)
  have "2 powi k = (2::rat) powi j * ulp q"
    by (simp add: j_def ulp_def flip: power_int_add)
  then have "q = of_int m * 2 powi j * ulp q" by (simp add: assms(1))
  then have "q / ulp q = of_int m * 2 powi j * ulp q / ulp q" by simp
  then have "q / ulp q = of_int m * 2 powi j" by simp
  also have "\<dots> = of_int (m * 2 ^ nat j)" using j0 by (simp add: power_int_def)
  finally have "q / ulp q = of_int (m * 2 ^ nat j)" .
  then have "of_int (roundTiesToEven (q / ulp q)) * ulp q = q / ulp q * ulp q"
    by (simp only: roundTiesToEven_of_int)
  then show ?thesis using False ulp_pos[of q] by (simp add: nearest64_def)
qed

lemma nearest64_of_int:
  assumes "\<bar>i\<bar> < 2 ^ 53"
  shows "nearest64 (of_int i) = of_int i"
  using nearest64_representable[of "of_int i" i 0] assms by simp


lemma ilog2_ge:
  assumes "q \<noteq> 0" "2 powi k \<le> \<bar>q\<bar>"
  shows "k \<le> ilog2 q"
proof (rule ccontr)
  assume "\<not> k \<le> ilog2 q"
  then have "ilog2 q + 1 \<le> k" by simp
  then have "(2::rat) powi (ilog2 q + 1) \<le> 2 powi k" by (intro power_int_increasing) auto
  then show False using ilog2_bounds(2)[OF assms(1)] assms(2) by simp
qed

lemma scaled_less_2_53:
  assumes "q \<noteq> 0"
  shows "\<bar>q / ulp q\<bar> < 2 ^ 53"
proof -
  define e where "e = max (ilog2 q) (- 1022)"
  have u: "ulp q = 2 powi (e - 52)" by (simp add: ulp_def e_def)
  have "\<bar>q\<bar> < 2 powi (ilog2 q + 1)" using ilog2_bounds(2)[OF assms] .
  also have "\<dots> \<le> 2 powi (e + 1)" by (intro power_int_increasing) (auto simp: e_def)
  also have "\<dots> = 2 ^ 53 * ulp q"
  proof -
    have "(2::rat) powi (53 + (e - 52)) = 2 powi 53 * 2 powi (e - 52)"
      by (rule power_int_add) simp
    moreover have "53 + (e - 52) = e + 1" by simp
    ultimately show ?thesis unfolding u by simp
  qed
  finally have "\<bar>q\<bar> < 2 ^ 53 * ulp q" .
  then have "\<bar>q\<bar> / ulp q < 2 ^ 53" using ulp_pos[of q] by (simp add: pos_divide_less_eq)
  then show ?thesis using ulp_pos[of q] by (simp add: abs_of_pos)
qed

lemma nearest64_idem: "nearest64 (nearest64 q) = nearest64 q"
proof (cases "q = 0")
  case True
  then show ?thesis by (simp add: nearest64_def)
next
  case False
  define k where "k = max (ilog2 q) (- 1022) - 52"
  define r where "r = roundTiesToEven (q / ulp q)"
  have u: "ulp q = 2 powi k" by (simp add: ulp_def k_def)
  have k: "- 1074 \<le> k" by (simp add: k_def)
  have v: "nearest64 q = of_int r * 2 powi k" using False by (simp add: nearest64_def r_def u)
  have "\<bar>of_int r - q / ulp q\<bar> \<le> 1 / 2" unfolding r_def by (rule roundTiesToEven_error)
  then have "\<bar>(of_int r :: rat)\<bar> < 2 ^ 53 + 1" using scaled_less_2_53[OF False] by linarith
  then have "(of_int \<bar>r\<bar> :: rat) < of_int (2 ^ 53 + 1)" by simp
  then have "\<bar>r\<bar> < 2 ^ 53 + 1" by (simp only: of_int_less_iff)
  then have rb: "\<bar>r\<bar> \<le> 2 ^ 53" by simp
  show ?thesis
  proof (cases "\<bar>r\<bar> < 2 ^ 53")
    case True
    show ?thesis using nearest64_representable[OF v True k] .
  next
    case False
    then have "\<bar>r\<bar> = 2 ^ 53" using rb by simp
    then have "r = 2 * (if 0 \<le> r then 2 ^ 52 else - (2 ^ 52))" by (auto split: if_splits)
    then obtain m where m: "r = 2 * m" "\<bar>m\<bar> < 2 ^ 53" by (auto split: if_splits)
    have "nearest64 q = of_int m * (2 * 2 powi k)" using v m(1) by simp
    also have "2 * (2::rat) powi k = 2 powi (k + 1)" by (simp add: power_int_add)
    finally have v': "nearest64 q = of_int m * 2 powi (k + 1)" .
    show ?thesis using nearest64_representable[OF v' m(2)] k by simp
  qed
qed

text \<open>The binary64 value of a quotient of two integers of moderate size is closer to it
  than the quotients of the same denominator are to each other, so that rounding it
  changes neither the integer that \<^verbatim>\<open>Math.floor\<close> finds nor the one that
  \<^verbatim>\<open>Math.round\<close> finds.\<close>

lemma nearest64_quotient_error:
  fixes p d :: int
  assumes "0 < d" "d \<le> 2 ^ 52" "\<bar>p\<bar> < 2 ^ 52"
  shows "\<bar>nearest64 (of_int p / of_int d) - of_int p / of_int d\<bar> < 1 / (2 * of_int d)"
proof (cases "p = 0")
  case True
  then show ?thesis using assms(1) by (simp add: nearest64_def)
next
  case False
  define y :: rat where "y = of_int p / of_int d"
  have dq: "(0::rat) < of_int d" using assms(1) by simp
  have y0: "y \<noteq> 0" using False assms(1) by (simp add: y_def)
  have absy: "\<bar>y\<bar> = of_int \<bar>p\<bar> / of_int d" using dq by (simp add: y_def abs_of_pos)
  have p1: "(1::rat) \<le> of_int \<bar>p\<bar>"
  proof -
    have "1 \<le> \<bar>p\<bar>" using False by simp
    then show ?thesis by (simp only: of_int_1_le_iff)
  qed
  have p52: "(of_int \<bar>p\<bar> :: rat) < 2 ^ 52"
  proof -
    have "(of_int \<bar>p\<bar> :: rat) < of_int (2 ^ 52)" using assms(3) by (simp only: of_int_less_iff)
    then show ?thesis by simp
  qed
  have d52: "(of_int d :: rat) \<le> 2 ^ 52"
  proof -
    have "(of_int d :: rat) \<le> of_int (2 ^ 52)" using assms(2) by (simp only: of_int_le_iff)
    then show ?thesis by simp
  qed
  have ylow: "(2::rat) powi (- 52) \<le> \<bar>y\<bar>"
  proof -
    have "(2::rat) powi (- 52) = 1 / 2 ^ 52" by (simp add: power_int_minus field_simps)
    also have "\<dots> \<le> 1 / of_int d" using d52 dq by (intro divide_left_mono) auto
    also have "\<dots> \<le> of_int \<bar>p\<bar> / of_int d" using p1 dq by (intro divide_right_mono) auto
    finally show ?thesis unfolding absy .
  qed
  have il: "- 52 \<le> ilog2 y" using ilog2_ge[OF y0 ylow] .
  then have u: "ulp y = 2 powi (ilog2 y - 52)" by (simp add: ulp_def max_def)
  have "(2::rat) powi (ilog2 y + - 52) = 2 powi (ilog2 y) * 2 powi (- 52)"
    by (rule power_int_add) simp
  then have u': "ulp y = 2 powi (ilog2 y) * 2 powi (- 52)" using u by simp
  have "ulp y \<le> \<bar>y\<bar> * 2 powi (- 52)"
    unfolding u' using ilog2_bounds(1)[OF y0] by (intro mult_right_mono) auto
  also have "\<dots> = of_int \<bar>p\<bar> / 2 ^ 52 / of_int d"
    by (simp add: absy power_int_minus field_simps)
  also have "\<dots> < 1 / of_int d"
    using p52 dq by (intro divide_strict_right_mono) auto
  finally have ulpd: "ulp y < 1 / of_int d" .
  have half: "ulp y / 2 < 1 / (2 * of_int d)"
    using ulpd dq by (simp add: field_simps)
  show ?thesis
    using nearest64_error[of y] half unfolding y_def by linarith
qed

lemma quotient_abs_less:
  fixes p d :: int
  assumes "0 < d" "\<bar>p\<bar> < 2 ^ 52"
  shows "\<bar>(of_int p :: rat) / of_int d\<bar> < 2 ^ 52"
proof -
  have dq: "(0::rat) < of_int d" "(1::rat) \<le> of_int d" using assms(1) by simp_all
  have "(of_int \<bar>p\<bar> :: rat) < of_int (2 ^ 52)" using assms(2) by (simp only: of_int_less_iff)
  then have p52: "(of_int \<bar>p\<bar> :: rat) < 2 ^ 52" by simp
  have "\<bar>(of_int p :: rat) / of_int d\<bar> = of_int \<bar>p\<bar> / of_int d"
    using dq(1) by (simp add: abs_of_pos)
  also have "\<dots> \<le> of_int \<bar>p\<bar> / 1" using dq(2) by (intro divide_left_mono) auto
  finally show ?thesis using p52 by simp
qed

lemma floor_shift_nearest64_quotient:
  fixes p d N D :: int and c :: rat
  assumes "0 < d" "d \<le> 2 ^ 52" "\<bar>p\<bar> < 2 ^ 52"
    and D: "D = d \<or> D = 2 * d"
    and t: "(of_int p :: rat) / of_int d + c = of_int N / of_int D"
    and rep: "\<And>k. of_int p / of_int d + c = of_int k \<Longrightarrow>
                nearest64 (of_int p / of_int d) = of_int p / of_int d"
  shows "\<lfloor>nearest64 (of_int p / of_int d) + c\<rfloor> = \<lfloor>(of_int p / of_int d :: rat) + c\<rfloor>"
proof -
  define y :: rat where "y = of_int p / of_int d"
  define v where "v = nearest64 y"
  define k where "k = N div D"
  define rem where "rem = N mod D"
  have Dpos: "0 < D" using assms(1) D by auto
  have Dq: "(0::rat) < of_int D" using Dpos by simp
  have dq: "(0::rat) < of_int d" using assms(1) by simp
  have N: "N = k * D + rem" by (simp add: k_def rem_def)
  have rem: "0 \<le> rem" "rem < D" using Dpos by (simp_all add: rem_def)
  have t': "y + c = of_int k + of_int rem / of_int D"
    unfolding y_def t N using Dq by (simp add: field_simps)
  have fl: "\<lfloor>y + c\<rfloor> = k" unfolding y_def t k_def by (rule floor_divide_of_int_eq)
  have "(of_int D :: rat) \<le> 2 * of_int d" using D dq by auto
  then have "1 / (2 * of_int d) \<le> 1 / (of_int D :: rat)"
    using Dq by (intro divide_left_mono) auto
  then have err: "\<bar>v - y\<bar> < 1 / of_int D"
    using nearest64_quotient_error[OF assms(1-3)] unfolding v_def y_def by linarith
  have "rem + 1 \<le> D" using rem(2) by simp
  then have "(of_int (rem + 1) :: rat) \<le> of_int D" by (simp only: of_int_le_iff)
  then have "(of_int rem + 1) / of_int D \<le> (1::rat)" using Dq by (simp add: pos_divide_le_eq)
  then have r1: "of_int rem / of_int D + 1 / of_int D \<le> (1::rat)"
    by (simp add: add_divide_distrib)
  have upper: "v + c < of_int k + 1"
    using err t' r1 by linarith
  have lower: "of_int k \<le> v + c"
  proof (cases "rem = 0")
    case True
    then have "y + c = of_int k" using t' by simp
    then have "v = y" unfolding v_def y_def by (rule rep)
    then show ?thesis using t' True by simp
  next
    case False
    then have "1 \<le> rem" using rem(1) by simp
    then have "(1::rat) \<le> of_int rem" by simp
    then have "1 / of_int D \<le> (of_int rem :: rat) / of_int D"
      using Dq by (intro divide_right_mono) auto
    then show ?thesis using err t' by linarith
  qed
  have "\<lfloor>v + c\<rfloor> = k" using lower upper by (intro floor_unique) auto
  then show ?thesis using fl by (simp add: v_def y_def)
qed

lemma floor_half_nearest64_quotient:
  fixes p d :: int
  assumes "0 < d" "d \<le> 2 ^ 52" "\<bar>p\<bar> < 2 ^ 52"
  shows "\<lfloor>nearest64 (of_int p / of_int d) + 1 / 2\<rfloor> = \<lfloor>(of_int p / of_int d :: rat) + 1 / 2\<rfloor>"
proof (rule floor_shift_nearest64_quotient[OF assms, where D = "2 * d" and N = "2 * p + d"])
  show "2 * d = d \<or> 2 * d = 2 * d" by simp
  show "(of_int p :: rat) / of_int d + 1 / 2 = of_int (2 * p + d) / of_int (2 * d)"
    using assms(1) by (simp add: field_simps)
  show "nearest64 (of_int p / of_int d) = of_int p / of_int d"
    if "(of_int p :: rat) / of_int d + 1 / 2 = of_int k" for k
  proof -
    have yk: "(of_int p :: rat) / of_int d = of_int (2 * k - 1) * 2 powi (- 1)"
      using that by (simp add: power_int_minus field_simps)
    have "\<bar>of_int (2 * k - 1) :: rat\<bar> = 2 * \<bar>(of_int p :: rat) / of_int d\<bar>"
      unfolding yk by (simp add: power_int_minus abs_mult)
    also have "\<dots> < 2 ^ 53" using quotient_abs_less[OF assms(1,3)] by simp
    finally have "(of_int \<bar>2 * k - 1\<bar> :: rat) < of_int (2 ^ 53)" by simp
    then have "\<bar>2 * k - 1\<bar> < 2 ^ 53" by (simp only: of_int_less_iff)
    then show ?thesis using nearest64_representable[OF yk] by simp
  qed
qed

lemma floor_nearest64_quotient:
  fixes p d :: int
  assumes "0 < d" "d \<le> 2 ^ 52" "\<bar>p\<bar> < 2 ^ 52"
  shows "\<lfloor>nearest64 (of_int p / of_int d)\<rfloor> = p div d"
proof -
  have "\<lfloor>nearest64 (of_int p / of_int d) + 0\<rfloor> = \<lfloor>(of_int p / of_int d :: rat) + 0\<rfloor>"
  proof (rule floor_shift_nearest64_quotient[OF assms, where D = d and N = p])
    show "d = d \<or> d = 2 * d" by simp
    show "(of_int p :: rat) / of_int d + 0 = of_int p / of_int d" by simp
    show "nearest64 (of_int p / of_int d) = of_int p / of_int d"
      if "(of_int p :: rat) / of_int d + 0 = of_int k" for k
    proof -
      have yk: "(of_int p :: rat) / of_int d = of_int k * 2 powi 0" using that by simp
      have "\<bar>of_int k :: rat\<bar> < 2 ^ 52" using quotient_abs_less[OF assms(1,3)] yk by simp
      then have "(of_int \<bar>k\<bar> :: rat) < of_int (2 ^ 53)" by simp
      then have "\<bar>k\<bar> < 2 ^ 53" by (simp only: of_int_less_iff)
      then show ?thesis using nearest64_representable[OF yk] by simp
    qed
  qed
  then show ?thesis by (simp add: floor_divide_of_int_eq)
qed

text \<open>Rounding does not cross a power of two.\<close>

lemma roundTiesToEven_ge: "of_int i \<le> m \<Longrightarrow> i \<le> roundTiesToEven m"
proof -
  assume "of_int i \<le> m"
  then have "i \<le> \<lfloor>m\<rfloor>" by (simp add: le_floor_iff)
  then show ?thesis by (auto simp add: roundTiesToEven_def Let_def)
qed

lemma roundTiesToEven_le: "m \<le> of_int i \<Longrightarrow> roundTiesToEven m \<le> i"
proof (cases "m = of_int i")
  case True
  then show ?thesis by simp
next
  case False
  assume "m \<le> of_int i"
  then have "m < of_int i" using False by simp
  then have "\<lfloor>m\<rfloor> < i" by (simp add: floor_less_iff)
  then show ?thesis by (auto simp add: roundTiesToEven_def Let_def)
qed

lemma nearest64_ge_pow2:
  assumes "2 powi k \<le> q" "- 1022 \<le> k"
  shows "2 powi k \<le> nearest64 q"
proof -
  have qpos: "0 < q" using assms(1) zero_less_power_int[of "2::rat" k] by linarith
  then have q0: "q \<noteq> 0" and qa: "\<bar>q\<bar> = q" by simp_all
  have ke: "k \<le> ilog2 q" using ilog2_ge[OF q0] assms(1) qa by simp
  then have m: "max (ilog2 q) (- 1022) = ilog2 q" using assms(2) by simp
  have u: "2 powi (ilog2 q) = (2::rat) ^ 52 * ulp q"
  proof -
    have "(2::rat) powi (52 + (ilog2 q - 52)) = 2 powi 52 * 2 powi (ilog2 q - 52)"
      by (rule power_int_add) simp
    then show ?thesis by (simp add: ulp_def m)
  qed
  have "(2::rat) ^ 52 * ulp q \<le> q" using ilog2_bounds(1)[OF q0] qa u by simp
  then have "(2::rat) ^ 52 \<le> q / ulp q" using ulp_pos[of q] by (simp add: pos_le_divide_eq)
  then have "(of_int (2 ^ 52) :: rat) \<le> q / ulp q" by simp
  then have "2 ^ 52 \<le> roundTiesToEven (q / ulp q)" by (rule roundTiesToEven_ge)
  then have "(of_int (2 ^ 52) :: rat) \<le> of_int (roundTiesToEven (q / ulp q))"
    by (simp only: of_int_le_iff)
  then have "(2::rat) ^ 52 * ulp q \<le> of_int (roundTiesToEven (q / ulp q)) * ulp q"
    using ulp_pos[of q] by (intro mult_right_mono) simp_all
  then have "2 powi (ilog2 q) \<le> nearest64 q" using u q0 by (simp add: nearest64_def)
  moreover have "(2::rat) powi k \<le> 2 powi (ilog2 q)" using ke by (intro power_int_increasing) auto
  ultimately show ?thesis by simp
qed

lemma roundTiesToEven_minus: "roundTiesToEven (- m) = - roundTiesToEven m"
proof (cases "m = of_int \<lfloor>m\<rfloor>")
  case True
  then obtain i where "m = of_int i" ..
  then have "- m = of_int (- i)" "m = of_int i" by simp_all
  then show ?thesis by (simp only: roundTiesToEven_of_int)
next
  case False
  define f where "f = \<lfloor>m\<rfloor>"
  define d where "d = m - of_int f"
  have d0: "0 < d" and d1: "d < 1"
    using False unfolding d_def f_def by linarith+
  have "of_int (- f - 1) \<le> - m" "- m < of_int (- f - 1) + 1"
    using d0 d1 by (simp_all add: d_def)
  then have fm: "\<lfloor>- m\<rfloor> = - f - 1" by (intro floor_unique) auto
  have dm: "- m - of_int (- f - 1) = 1 - d" by (simp add: d_def)
  have r: "roundTiesToEven m = (if d < 1 / 2 then f else if 1 / 2 < d then f + 1
                                else if even f then f else f + 1)"
    by (simp add: roundTiesToEven_def Let_def f_def d_def)
  have r': "roundTiesToEven (- m) = (if 1 - d < 1 / 2 then - f - 1 else if 1 / 2 < 1 - d then - f
                                else if even (- f - 1) then - f - 1 else - f)"
    unfolding roundTiesToEven_def Let_def fm dm by simp
  consider "d < 1 / 2" | "1 / 2 < d" | "d = 1 / 2" by linarith
  then show ?thesis
  proof cases
    case 1
    then show ?thesis unfolding r r' by simp
  next
    case 2
    then show ?thesis unfolding r r' by simp
  next
    case 3
    then show ?thesis unfolding r r' by simp
  qed
qed

lemma ilog2_minus: "ilog2 (- q) = ilog2 q"
  by (simp add: ilog2_def)

lemma nearest64_minus: "nearest64 (- q) = - nearest64 q"
  by (simp add: nearest64_def ulp_def ilog2_minus roundTiesToEven_minus)

lemma nearest64_le_neg_pow2:
  assumes "q \<le> - (2 powi k)" "- 1022 \<le> k"
  shows "nearest64 q \<le> - (2 powi k)"
proof -
  have "2 powi k \<le> - q" using assms(1) by simp
  then have "2 powi k \<le> nearest64 (- q)" using assms(2) by (rule nearest64_ge_pow2)
  then show ?thesis by (simp add: nearest64_minus)
qed

subsection \<open>Results of the operations\<close>

lemma ulp_le_1:
  assumes "\<bar>q\<bar> < 2 ^ 53"
  shows "ulp q \<le> 1"
proof -
  have "max (ilog2 q) (- 1022) - 52 \<le> 0"
  proof (cases "q = 0")
    case True
    have "ilog2 0 = - 2" by code_simp
    then show ?thesis using True by simp
  next
    case False
    have "\<bar>q\<bar> < 2 powi 53" using assms by simp
    then have "ilog2 q < 53" using ilog2_less[OF False] by blast
    then show ?thesis by simp
  qed
  then have "(2::rat) powi (max (ilog2 q) (- 1022) - 52) \<le> 2 powi 0"
    by (intro power_int_increasing) auto
  then show ?thesis by (simp add: ulp_def)
qed

lemma binary64_small:
  assumes "\<bar>q\<bar> < 2 ^ 53"
  shows "binary64 q = Fin (nearest64 q)"
proof -
  have "\<bar>nearest64 q - q\<bar> \<le> 1 / 2"
    using nearest64_error[of q] ulp_le_1[OF assms] by linarith
  then have "\<bar>nearest64 q\<bar> < 2 ^ 53 + 1" using assms by linarith
  moreover have "(2::rat) ^ 53 + 1 < 2 ^ 1024" by simp
  ultimately have "\<bar>nearest64 q\<bar> < 2 ^ 1024" by (rule less_trans)
  then have "\<not> 2 ^ 1024 \<le> nearest64 q" "\<not> nearest64 q \<le> - (2 ^ 1024)" by linarith+
  then show ?thesis by (simp only: binary64_def overflowBound_def Let_def if_False)
qed

lemma binary64_of_int:
  assumes "\<bar>i\<bar> < 2 ^ 53"
  shows "binary64 (of_int i) = Fin (of_int i)"
proof -
  have "(of_int \<bar>i\<bar> :: rat) < of_int (2 ^ 53)" using assms by (simp only: of_int_less_iff)
  then have "\<bar>of_int i :: rat\<bar> < 2 ^ 53" by simp
  then show ?thesis using nearest64_of_int[OF assms] by (simp add: binary64_small)
qed

lemma binary64_0 [simp]: "binary64 0 = Fin 0"
  using binary64_of_int[of 0] by simp

lemma binary64_1 [simp]: "binary64 1 = Fin 1"
  using binary64_of_int[of 1] by simp

lemma binary64_nonneg:
  assumes "0 \<le> q"
  shows "binary64 q = PInf \<or> (\<exists>v. binary64 q = Fin v \<and> 0 \<le> v)"
proof -
  have v: "0 \<le> nearest64 q" using assms by (rule nearest64_nonneg)
  have "(0::rat) < 2 ^ 1024" by simp
  then have "\<not> nearest64 q \<le> - (2 ^ 1024)" using v by linarith
  then show ?thesis using v by (simp add: binary64_def overflowBound_def Let_def)
qed

lemma binary64_fixed:
  assumes "binary64 q = Fin v"
  shows "binary64 v = Fin v"
proof -
  have v: "v = nearest64 q" and b: "\<not> 2 ^ 1024 \<le> nearest64 q" "\<not> nearest64 q \<le> - (2 ^ 1024)"
    using assms by (auto simp add: binary64_def overflowBound_def Let_def split: if_splits)
  have "nearest64 v = v" unfolding v by (rule nearest64_idem)
  then show ?thesis using b v by (simp add: binary64_def overflowBound_def Let_def)
qed

lemma jadd_binary64_zero: "jadd (binary64 q) (Fin 0) = binary64 q"
proof (cases "binary64 q")
  case (Fin v)
  then show ?thesis using binary64_fixed[OF Fin] by simp
qed simp_all

lemma jmul_zero_right: "jadd (jmul a b) (Fin 0) = jmul a b"
proof (cases a)
  case a: (Fin x)
  show ?thesis
  proof (cases b)
    case (Fin y)
    then show ?thesis using a by (simp add: jadd_binary64_zero)
  qed (use a in \<open>simp_all split: if_splits\<close>)
next
  case PInf
  then show ?thesis by (cases b) (simp_all split: if_splits)
next
  case NInf
  then show ?thesis by (cases b) (simp_all split: if_splits)
next
  case NaN
  then show ?thesis by simp
qed

lemma RECENT_WEIGHT_value: "RECENT_WEIGHT = Fin (5404319552844595 / 18014398509481984)"
  by code_simp

lemma HISTORY_WEIGHT_value: "HISTORY_WEIGHT = Fin (3152519739159347 / 4503599627370496)"
  by code_simp

lemma binary64_numeral [simp]:
  "numeral n < (2::int) ^ 53 \<Longrightarrow> binary64 (numeral n) = Fin (numeral n)"
  using binary64_of_int[of "numeral n"] by simp

lemma binary64_neg_numeral [simp]:
  "numeral n < (2::int) ^ 53 \<Longrightarrow> binary64 (- numeral n) = Fin (- numeral n)"
  using binary64_of_int[of "- numeral n"] by simp

lemma binary64_half_numeral [simp]:
  assumes "numeral n < (2::int) ^ 53"
  shows "binary64 (numeral n / 2) = Fin (numeral n / 2)"
proof -
  define i :: int where "i = numeral n"
  have i: "0 < i" "i < 2 ^ 53" using assms by (simp_all add: i_def)
  have q: "(of_int i / 2 :: rat) = of_int i * 2 powi (- 1)"
    by (simp add: power_int_minus)
  have m: "\<bar>i\<bar> < 2 ^ 53" using i by simp
  have fixed: "nearest64 (of_int i / 2) = of_int i / 2"
    using nearest64_representable[OF q m] by simp
  have "(of_int i :: rat) < of_int (2 ^ 53)" using i(2) by (simp only: of_int_less_iff)
  then have "(of_int i :: rat) < 2 ^ 53" by simp
  moreover have "(0::rat) < of_int i" using i(1) by simp
  ultimately have "\<bar>of_int i / 2 :: rat\<bar> < 2 ^ 53" by (simp add: abs_if)
  then have "binary64 (of_int i / 2) = Fin (of_int i / 2)"
    using fixed by (simp add: binary64_small)
  then show ?thesis by (simp add: i_def)
qed

lemma binary64_ge_pow2:
  assumes "2 powi k \<le> q" "- 1022 \<le> k"
  shows "binary64 q = PInf \<or> (\<exists>v. binary64 q = Fin v \<and> 2 powi k \<le> v)"
proof -
  have v: "2 powi k \<le> nearest64 q" using assms by (rule nearest64_ge_pow2)
  have "(0::rat) < 2 powi k" by simp
  then have "0 < nearest64 q" using v by linarith
  moreover have "(0::rat) < overflowBound" by (simp add: overflowBound_def)
  ultimately have "\<not> nearest64 q \<le> - overflowBound" by linarith
  then show ?thesis using v by (simp add: binary64_def Let_def)
qed

lemma binary64_le_neg_pow2:
  assumes "q \<le> - (2 powi k)" "- 1022 \<le> k"
  shows "binary64 q = NInf \<or> (\<exists>v. binary64 q = Fin v \<and> v \<le> - (2 powi k))"
proof -
  have v: "nearest64 q \<le> - (2 powi k)" using assms by (rule nearest64_le_neg_pow2)
  have "(0::rat) < 2 powi k" by simp
  then have "nearest64 q < 0" using v by linarith
  moreover have "(0::rat) < overflowBound" by (simp add: overflowBound_def)
  ultimately have "\<not> overflowBound \<le> nearest64 q" by linarith
  then show ?thesis using v by (simp add: binary64_def Let_def)
qed

text \<open>The weighted terms of the scenarios.\<close>

lemma history_50: "jmul (Fin 50) HISTORY_WEIGHT = Fin 35"
  by code_simp

lemma history_0: "jmul (Fin 0) HISTORY_WEIGHT = Fin 0"
  by (simp add: HISTORY_WEIGHT_value)

lemma history_100: "jmul (Fin 100) HISTORY_WEIGHT = Fin 70"
  by code_simp

lemma history_200: "jmul (Fin 200) HISTORY_WEIGHT = Fin 140"
  by code_simp

lemma history_PInf: "jmul PInf HISTORY_WEIGHT = PInf"
  by (simp add: HISTORY_WEIGHT_value)

lemma recent_0: "jmul (Fin 0) RECENT_WEIGHT = Fin 0"
  by (simp add: RECENT_WEIGHT_value)

lemma recent_90: "jmul (Fin 90) RECENT_WEIGHT = Fin 27"
  by code_simp

lemma recent_95: "jmul (Fin 95) RECENT_WEIGHT = Fin (57 / 2)"
  by code_simp

lemma recent_100: "jmul (Fin 100) RECENT_WEIGHT = Fin 30"
  by code_simp

lemma recent_minus_100: "jmul (Fin (- 100)) RECENT_WEIGHT = Fin (- 30)"
  by code_simp

lemmas weighted = history_0 history_50 history_100 history_200 history_PInf
  recent_0 recent_90 recent_95 recent_100 recent_minus_100

section \<open>Arithmetic facts\<close>

lemma floor_rat_numeral_divide [simp]:
  "\<lfloor>(numeral a :: rat) / numeral b\<rfloor> = numeral a div numeral b"
  using floor_divide_of_int_eq[of "numeral a" "numeral b", where ?'a = rat] by simp

lemma floor_rat_neg_numeral_divide [simp]:
  "\<lfloor>- ((numeral a :: rat) / numeral b)\<rfloor> = (- numeral a) div numeral b"
  using floor_divide_of_int_eq[of "- numeral a" "numeral b", where ?'a = rat] by simp

lemma floor_rat_one_divide [simp]:
  "\<lfloor>(1 :: rat) / numeral b\<rfloor> = 1 div numeral b"
  using floor_divide_of_int_eq[of 1 "numeral b", where ?'a = rat] by simp

lemma div_eq_0_elapsed:
  fixes d k :: int
  assumes "0 < k" "0 \<le> d"
  shows "(d div k = 0) = (d < k)"
  using assms by (auto simp: zdiv_eq_0_iff)

lemma div_eq_1_elapsed:
  fixes d k :: int
  assumes "0 < k" "0 \<le> d"
  shows "(d div k = 1) = (k \<le> d \<and> d < 2 * k)"
proof (cases "k \<le> d")
  case True
  then have "d div k = (d - k) div k + 1"
    using assms(1) by (simp add: div_pos_geq)
  moreover have "((d - k) div k = 0) = (d - k < k)"
    using True assms(1) by (simp add: div_eq_0_elapsed)
  ultimately show ?thesis using True by auto
next
  case False
  then have "d div k = 0" using assms by (simp add: div_eq_0_elapsed)
  then show ?thesis using False by simp
qed

lemma floor_days: "\<lfloor>(of_int x :: rat) / 86400000\<rfloor> = x div 86400000"
  using floor_divide_of_int_eq[of x 86400000, where ?'a = rat] by simp

section \<open>The streak\<close>

text \<open>The day difference that the method computes in binary64 arithmetic decides as the
  integer quotient of the elapsed milliseconds by the day does.\<close>

lemma jsub_of_int: "jsub (Fin (of_int a)) (Fin (of_int b)) = binary64 (of_int (a - b))"
  by (simp add: jsub_def)

lemma daysDiff_moderate:
  assumes "\<bar>now - lastDate\<bar> < 2 ^ 52"
  shows "daysDiff now lastDate = Fin (of_int ((now - lastDate) div 86400000))"
proof -
  define d where "d = now - lastDate"
  have d: "\<bar>d\<bar> < 2 ^ 52" using assms by (simp add: d_def)
  then have "\<bar>d\<bar> < 2 ^ 53" by simp
  then have s: "jsub (Fin (of_int now)) (Fin (of_int lastDate)) = Fin (of_int d)"
    unfolding jsub_of_int d_def[symmetric] by (rule binary64_of_int)
  have day: "(0::int) < 86400000" "(86400000::int) \<le> 2 ^ 52" by simp_all
  have "\<bar>(of_int d :: rat) / of_int 86400000\<bar> < 2 ^ 52"
    using quotient_abs_less[OF day(1) d] .
  then have "\<bar>(of_int d :: rat) / of_int 86400000\<bar> < 2 ^ 53" by simp
  then have "binary64 (of_int d / of_int 86400000) = Fin (nearest64 (of_int d / of_int 86400000))"
    by (rule binary64_small)
  then have q: "jdiv (Fin (of_int d)) (Fin 86400000) = Fin (nearest64 (of_int d / of_int 86400000))"
    by simp
  have "daysDiff now lastDate = jfloor (Fin (nearest64 (of_int d / of_int 86400000)))"
    unfolding daysDiff_def s using q by simp
  also have "\<dots> = Fin (of_int (d div 86400000))"
    using floor_nearest64_quotient[OF day d] by simp
  finally show ?thesis by (simp add: d_def)
qed

lemma daysDiff_far_future:
  assumes "2 ^ 52 \<le> now - lastDate"
  shows "daysDiff now lastDate = PInf \<or> (\<exists>v. daysDiff now lastDate = Fin v \<and> 2 \<le> v)"
proof -
  define d where "d = now - lastDate"
  have "(of_int (2 ^ 52) :: rat) \<le> of_int d" using assms unfolding d_def by (simp only: of_int_le_iff)
  then have "(2::rat) powi 52 \<le> of_int d" by simp
  then consider (inf) "binary64 (of_int d) = PInf"
    | (fin) v where "binary64 (of_int d) = Fin v" "2 powi 52 \<le> v"
    using binary64_ge_pow2[of 52 "of_int d"] by auto
  then show ?thesis
  proof cases
    case inf
    then show ?thesis by (simp add: daysDiff_def jsub_of_int d_def[symmetric])
  next
    case fin
    have "(2::rat) powi 1 \<le> v / 86400000" using fin(2) by simp
    then consider (inf) "binary64 (v / 86400000) = PInf"
      | (fin') w where "binary64 (v / 86400000) = Fin w" "2 powi 1 \<le> w"
      using binary64_ge_pow2[of 1 "v / 86400000"] by auto
    then show ?thesis
    proof cases
      case inf
      then show ?thesis using fin(1) by (simp add: daysDiff_def jsub_of_int d_def[symmetric])
    next
      case fin'
      have "(of_int 2 :: rat) \<le> w" using fin'(2) by simp
      then have "2 \<le> \<lfloor>w\<rfloor>" by (simp only: le_floor_iff)
      then have "(2::rat) \<le> of_int \<lfloor>w\<rfloor>" by simp
      then show ?thesis
        using fin(1) fin'(1) by (simp add: daysDiff_def jsub_of_int d_def[symmetric])
    qed
  qed
qed

lemma daysDiff_far_past:
  assumes "now - lastDate \<le> - (2 ^ 52)"
  shows "daysDiff now lastDate = NInf \<or> (\<exists>v. daysDiff now lastDate = Fin v \<and> v \<le> - 2)"
proof -
  define d where "d = now - lastDate"
  have "(of_int d :: rat) \<le> of_int (- (2 ^ 52))" using assms unfolding d_def by (simp only: of_int_le_iff)
  then have "(of_int d :: rat) \<le> - (2 powi 52)" by simp
  then consider (inf) "binary64 (of_int d) = NInf"
    | (fin) v where "binary64 (of_int d) = Fin v" "v \<le> - (2 powi 52)"
    using binary64_le_neg_pow2[of "of_int d" 52] by auto
  then show ?thesis
  proof cases
    case inf
    then show ?thesis by (simp add: daysDiff_def jsub_of_int d_def[symmetric])
  next
    case fin
    have "v / 86400000 \<le> - ((2::rat) powi 1)" using fin(2) by simp
    then consider (inf) "binary64 (v / 86400000) = NInf"
      | (fin') w where "binary64 (v / 86400000) = Fin w" "w \<le> - (2 powi 1)"
      using binary64_le_neg_pow2[of "v / 86400000" 1] by auto
    then show ?thesis
    proof cases
      case inf
      then show ?thesis using fin(1) by (simp add: daysDiff_def jsub_of_int d_def[symmetric])
    next
      case fin'
      have "w \<le> (of_int (- 2) :: rat)" using fin'(2) by simp
      then have "\<lfloor>w\<rfloor> \<le> - 2" by (simp only: floor_le_iff)
      then have "(of_int \<lfloor>w\<rfloor> :: rat) \<le> of_int (- 2)" by (simp only: of_int_le_iff)
      then have "(of_int \<lfloor>w\<rfloor> :: rat) \<le> - 2" by (simp only: of_int_minus of_int_numeral)
      then show ?thesis
        using fin(1) fin'(1) by (simp add: daysDiff_def jsub_of_int d_def[symmetric])
    qed
  qed
qed

lemma calculateStreak_daysDiff:
  "calculateStreak e (Some lastDate) =
     (if daysDiff (clientNow e) lastDate = Fin 0 then SameDay
      else if daysDiff (clientNow e) lastDate = Fin 1 then Increment
      else ResetToOne)"
  by (simp add: calculateStreak_def daysDiff_def Let_def)

lemma calculateStreak_Some:
  "calculateStreak e (Some lastDate) =
     (if (clientNow e - lastDate) div 86400000 = 0 then SameDay
      else if (clientNow e - lastDate) div 86400000 = 1 then Increment
      else ResetToOne)"
proof -
  define d where "d = clientNow e - lastDate"
  consider (moderate) "\<bar>d\<bar> < 2 ^ 52" | (future) "2 ^ 52 \<le> d" | (past) "d \<le> - (2 ^ 52)"
    by linarith
  then show ?thesis
  proof cases
    case moderate
    then have "daysDiff (clientNow e) lastDate = Fin (of_int (d div 86400000))"
      unfolding d_def by (rule daysDiff_moderate)
    then show ?thesis by (simp add: calculateStreak_daysDiff d_def)
  next
    case future
    then have dd: "daysDiff (clientNow e) lastDate \<noteq> Fin 0"
      "daysDiff (clientNow e) lastDate \<noteq> Fin 1"
      using daysDiff_far_future[of "clientNow e" lastDate] by (auto simp add: d_def)
    have "(172800000::int) div 86400000 \<le> d div 86400000"
      using future by (intro zdiv_mono1) simp_all
    then have "2 \<le> d div 86400000" by simp
    then show ?thesis using dd by (simp add: calculateStreak_daysDiff d_def)
  next
    case past
    then have dd: "daysDiff (clientNow e) lastDate \<noteq> Fin 0"
      "daysDiff (clientNow e) lastDate \<noteq> Fin 1"
      using daysDiff_far_past[of "clientNow e" lastDate] by (auto simp add: d_def)
    have "d < 0" using past by simp
    then have "d div 86400000 < 0" by (simp add: div_neg_pos_less0)
    then show ?thesis using dd by (simp add: calculateStreak_daysDiff d_def)
  qed
qed

lemma calculateStreak_None: "calculateStreak e None = ResetToOne"
  by (simp add: calculateStreak_def)

lemmas calculateStreak_eval = calculateStreak_None calculateStreak_Some

text \<open>
  Claim C7. For a last session date that is not later than the clock reading, the streak
  computation returns reset-to-one when the date is absent, none when
  floor((now - last) / 24h) is 0, increment when it is 1 and reset-to-one when it is
  greater than 1. The semantics is elapsed time: less than 24h elapsed gives none, from
  24h to less than 48h gives increment, 48h or more gives reset-to-one; so 23h59m gives
  none, 25h gives increment and 49h gives reset-to-one.
\<close>

theorem calculateStreak_elapsed:
  "calculateStreak e None = ResetToOne \<and>
   (lastDate \<le> clientNow e \<longrightarrow>
      calculateStreak e (Some lastDate) =
        (let days = \<lfloor>(of_int (clientNow e - lastDate) :: rat) / 86400000\<rfloor>
         in if days = 0 then SameDay else if days = 1 then Increment else ResetToOne) \<and>
      calculateStreak e (Some lastDate) =
        (if clientNow e - lastDate < 86400000 then SameDay
         else if clientNow e - lastDate < 172800000 then Increment
         else ResetToOne)) \<and>
   calculateStreak \<lparr> clientNow = T + (23 * 60 + 59) * 60 * 1000, serverNow = sv \<rparr> (Some T)
     = SameDay \<and>
   calculateStreak \<lparr> clientNow = T + 25 * 60 * 60 * 1000, serverNow = sv \<rparr> (Some T)
     = Increment \<and>
   calculateStreak \<lparr> clientNow = T + 49 * 60 * 60 * 1000, serverNow = sv \<rparr> (Some T)
     = ResetToOne"
proof -
  have none: "calculateStreak e None = ResetToOne"
    by (simp add: calculateStreak_eval)
  have gen: "calculateStreak e (Some lastDate) =
        (let days = \<lfloor>(of_int (clientNow e - lastDate) :: rat) / 86400000\<rfloor>
         in if days = 0 then SameDay else if days = 1 then Increment else ResetToOne)"
    unfolding floor_days by (simp add: calculateStreak_eval Let_def)
  have rng: "calculateStreak e (Some lastDate) =
        (if clientNow e - lastDate < 86400000 then SameDay
         else if clientNow e - lastDate < 172800000 then Increment
         else ResetToOne)" if "lastDate \<le> clientNow e"
  proof -
    have d0: "0 \<le> clientNow e - lastDate" using that by simp
    have a: "(clientNow e - lastDate) div 86400000 = 0
               \<longleftrightarrow> clientNow e - lastDate < 86400000"
      using d0 div_eq_0_elapsed[of 86400000 "clientNow e - lastDate"] by simp
    have b: "(clientNow e - lastDate) div 86400000 = 1 \<longleftrightarrow>
               86400000 \<le> clientNow e - lastDate \<and> clientNow e - lastDate < 172800000"
      using d0 div_eq_1_elapsed[of 86400000 "clientNow e - lastDate"] by simp
    show ?thesis
      using a b by (auto simp: calculateStreak_eval Let_def)
  qed
  have ex1: "calculateStreak \<lparr> clientNow = T + (23 * 60 + 59) * 60 * 1000, serverNow = sv \<rparr>
               (Some T) = SameDay"
    by (simp add: calculateStreak_eval)
  have ex2: "calculateStreak \<lparr> clientNow = T + 25 * 60 * 60 * 1000, serverNow = sv \<rparr>
               (Some T) = Increment"
    by (simp add: calculateStreak_eval)
  have ex3: "calculateStreak \<lparr> clientNow = T + 49 * 60 * 60 * 1000, serverNow = sv \<rparr>
               (Some T) = ResetToOne"
    by (simp add: calculateStreak_eval)
  show ?thesis using none gen rng ex1 ex2 ex3 by blast
qed

theorem calculateStreak_elapsed_witness:
  "(0::int) \<le> 90000000 \<and>
   calculateStreak \<lparr> clientNow = 90000000, serverNow = 0 \<rparr> (Some 0) = Increment"
  using calculateStreak_elapsed[of "\<lparr> clientNow = 90000000, serverNow = 0 \<rparr>" 0 0 0]
  by (simp add: calculateStreak_eval Let_def)

text \<open>
  Claim C9. For a last session date strictly later than the clock reading (negative
  elapsed time), the floor of the day difference is at most -1 and the streak computation
  returns reset-to-one.
\<close>

theorem calculateStreak_negative_elapsed:
  "clientNow e < lastDate \<Longrightarrow>
     (clientNow e - lastDate) div (1000 * 60 * 60 * 24) \<le> - 1 \<and>
     calculateStreak e (Some lastDate) = ResetToOne"
proof -
  assume lt: "clientNow e < lastDate"
  then have "(clientNow e - lastDate) div 86400000 < 0"
    by (simp add: div_neg_pos_less0)
  then have neg: "(clientNow e - lastDate) div 86400000 \<le> - 1" by simp
  then show ?thesis by (simp add: calculateStreak_eval Let_def)
qed

theorem calculateStreak_negative_elapsed_witness:
  "(5::int) < 6 \<and> calculateStreak \<lparr> clientNow = 5, serverNow = 0 \<rparr> (Some 6) = ResetToOne"
  using calculateStreak_negative_elapsed[of "\<lparr> clientNow = 5, serverNow = 0 \<rparr>" 6] by simp

text \<open>
  Claim C3, as stated: the streak computation receives the current time as an argument
  and reads no clock, so two runs on the same arguments return the same mode. The method
  has one argument, the last session date, and reads the clock itself: two runs on the
  same last session date, one at that very instant and one 24h later, return different
  modes.
\<close>

theorem calculateStreak_reads_clock_counterexample:
  "calculateStreak \<lparr> clientNow = 0, serverNow = 0 \<rparr> (Some 0)
     \<noteq> calculateStreak \<lparr> clientNow = 86400000, serverNow = 0 \<rparr> (Some 0)"
  by (simp add: calculateStreak_eval)

text \<open>
  Claim C3, amended: the streak computation takes the last session date and reads the
  browser's clock; its result is a function of these two alone, so two runs with the same
  last session date and the same clock reading return the same mode, whatever else differs
  between the two runs.
\<close>

theorem calculateStreak_deterministic:
  "clientNow e1 = clientNow e2 \<Longrightarrow>
     calculateStreak e1 lastSession = calculateStreak e2 lastSession"
  by (cases lastSession) (simp_all add: calculateStreak_eval)

theorem calculateStreak_deterministic_witness:
  "calculateStreak \<lparr> clientNow = 90000000, serverNow = 0 \<rparr> (Some 0)
     = calculateStreak \<lparr> clientNow = 90000000, serverNow = 77 \<rparr> (Some 0)"
  using calculateStreak_deterministic[of "\<lparr> clientNow = 90000000, serverNow = 0 \<rparr>"
      "\<lparr> clientNow = 90000000, serverNow = 77 \<rparr>" "Some 0"]
  by simp

section \<open>updateSkills: errors, formula and range\<close>

lemma getProp_Inr: "\<not> isNullish v \<Longrightarrow> \<exists>x. getProp v k = Inr x"
  by (cases v) simp_all

lemma getProp_nullish: "isNullish v \<Longrightarrow> getProp v k = Inl TypeError"
  by (cases v) simp_all

lemma getCur_numberOr: "getCur v = numberOr 50 v"
  by (cases v) (simp_all add: numberOr_def)

lemma getVal_numberOr: "getVal v = numberOr 0 v"
  by (cases v) (simp_all add: numberOr_def)

lemma floor_half_min_100:
  fixes q :: rat
  shows "\<lfloor>min 100 q + 1 / 2\<rfloor> = min 100 \<lfloor>q + 1 / 2\<rfloor>"
proof (cases "q \<le> 100")
  case True
  then have "\<lfloor>q + 1 / 2\<rfloor> \<le> \<lfloor>(100::rat) + 1 / 2\<rfloor>" by (intro floor_mono) simp
  also have "\<lfloor>(100::rat) + 1 / 2\<rfloor> = 100" by simp
  finally have le: "\<lfloor>q + 1 / 2\<rfloor> \<le> 100" .
  have "min 100 q = q" using True by (rule min_absorb2)
  moreover have "min 100 \<lfloor>q + 1 / 2\<rfloor> = \<lfloor>q + 1 / 2\<rfloor>" using le by (rule min_absorb2)
  ultimately show ?thesis by (simp only:)
next
  case False
  then have "\<lfloor>(100::rat) + 1 / 2\<rfloor> \<le> \<lfloor>q + 1 / 2\<rfloor>" by (intro floor_mono) simp
  moreover have "\<lfloor>(100::rat) + 1 / 2\<rfloor> = 100" by simp
  ultimately have ge: "100 \<le> \<lfloor>q + 1 / 2\<rfloor>" by (simp only:)
  have "min 100 q = 100" using False by (intro min_absorb1) simp
  moreover have "min 100 \<lfloor>q + 1 / 2\<rfloor> = 100" using ge by (rule min_absorb1)
  ultimately show ?thesis by simp
qed

lemma jround_jmin_100: "jround (jmin (Fin 100) x) = jmin (Fin 100) (jround x)"
proof (cases x)
  case (Fin q)
  have "jround (jmin (Fin 100) (Fin q)) = Fin (of_int \<lfloor>min 100 q + 1 / 2\<rfloor>)"
    by simp
  also have "\<dots> = Fin (of_int (min 100 \<lfloor>q + 1 / 2\<rfloor>))"
    by (simp only: floor_half_min_100)
  also have "\<dots> = jmin (Fin 100) (jround (Fin q))"
    by (simp add: min_def)
  finally show ?thesis using Fin by simp
qed simp_all

lemma skillEntry_eq:
  assumes "getProp currentSkills k = Inr cv" "getProp sessionSkills k = Inr gv"
  shows "skillEntry currentSkills sessionSkills k =
           Inr (roundedClampedSkill (numberOr 50 cv) (numberOr 0 gv))"
  using assms
  by (simp add: skillEntry_def roundedClampedSkill_def jround_jmin_100 getCur_numberOr
      getVal_numberOr HISTORY_WEIGHT_def RECENT_WEIGHT_def)

lemma skillEntry_Inr:
  assumes "\<not> isNullish currentSkills" "\<not> isNullish sessionSkills"
  shows "\<exists>x. skillEntry currentSkills sessionSkills k = Inr x"
  using getProp_Inr[OF assms(1), of k] getProp_Inr[OF assms(2), of k] skillEntry_eq by blast

lemma skillEntry_nullish_session:
  assumes "isNullish sessionSkills"
  shows "skillEntry currentSkills sessionSkills k = Inl TypeError"
proof (cases "isNullish currentSkills")
  case True
  then show ?thesis by (simp add: skillEntry_def getProp_nullish)
next
  case False
  then obtain c where "getProp currentSkills k = Inr c" using getProp_Inr by blast
  then show ?thesis using assms by (simp add: skillEntry_def getProp_nullish)
qed

lemma updateSkills_Inr:
  assumes "\<not> isNullish currentSkills" "\<not> isNullish sessionSkills"
  shows "updateSkills currentSkills sessionSkills n =
     Inr (JObj [(''empathy'', JNum (projr (skillEntry currentSkills sessionSkills ''empathy''))),
                (''conflictResolution'', JNum (projr (skillEntry currentSkills sessionSkills ''conflictResolution''))),
                (''boundaryKeeping'', JNum (projr (skillEntry currentSkills sessionSkills ''boundaryKeeping''))),
                (''patience'', JNum (projr (skillEntry currentSkills sessionSkills ''patience'')))])"
proof -
  obtain a where a: "skillEntry currentSkills sessionSkills ''empathy'' = Inr a"
    using skillEntry_Inr[OF assms] by blast
  obtain b where b: "skillEntry currentSkills sessionSkills ''conflictResolution'' = Inr b"
    using skillEntry_Inr[OF assms] by blast
  obtain c where c: "skillEntry currentSkills sessionSkills ''boundaryKeeping'' = Inr c"
    using skillEntry_Inr[OF assms] by blast
  obtain d where d: "skillEntry currentSkills sessionSkills ''patience'' = Inr d"
    using skillEntry_Inr[OF assms] by blast
  show ?thesis by (simp add: updateSkills_def a b c d)
qed

lemma updateSkills_entry:
  assumes "\<not> isNullish currentSkills" "\<not> isNullish sessionSkills" "k \<in> set skillNames"
  shows "\<exists>r. updateSkills currentSkills sessionSkills n = Inr r \<and>
             getProp r k = Inr (JNum (projr (skillEntry currentSkills sessionSkills k)))"
  using assms(3) unfolding updateSkills_Inr[OF assms(1,2)] skillNames_def
  by auto

lemma updateSkills_nullish_session:
  "isNullish sessionSkills \<Longrightarrow> updateSkills currentSkills sessionSkills n = Inl TypeError"
  by (simp add: updateSkills_def skillEntry_nullish_session)

text \<open>
  Claim C10. updateSkills needs the gained map itself: when it is \<^verbatim>\<open>undefined\<close> or
  \<^verbatim>\<open>null\<close> the call fails with a \<^verbatim>\<open>TypeError\<close> and returns no skills, whatever the current
  skills are; an empty gained map is accepted, and gives what a map with every gain 0
  gives. In saveSessionResults the error is caught: the call returns a failure, and the
  stored and the loaded user document are left as they were.
\<close>

theorem updateSkills_absent_gained_map:
  "updateSkills currentSkills JUndefined n = Inl TypeError \<and>
   updateSkills currentSkills JNull n = Inl TypeError \<and>
   (\<exists>r. updateSkills (JObj cs) (JObj []) n = Inr r \<and>
        updateSkills (JObj cs)
          (JObj [(''empathy'', JNum (Fin 0)), (''conflictResolution'', JNum (Fin 0)),
                 (''boundaryKeeping'', JNum (Fin 0)), (''patience'', JNum (Fin 0))]) n = Inr r) \<and>
   (currentUser s = Some uid \<and> userDoc s = Some doc \<and> isNullish (skillsGained session) \<longrightarrow>
      fst (saveSessionResults e s session) = Inr (Failure TypeError) \<and>
      users (fst (snd (saveSessionResults e s session))) = users s \<and>
      userDoc (fst (snd (saveSessionResults e s session))) = userDoc s)"
proof -
  have 1: "updateSkills currentSkills JUndefined n = Inl TypeError"
    by (simp add: updateSkills_nullish_session)
  have 2: "updateSkills currentSkills JNull n = Inl TypeError"
    by (simp add: updateSkills_nullish_session)
  have 3: "updateSkills (JObj cs) (JObj []) n = updateSkills (JObj cs)
          (JObj [(''empathy'', JNum (Fin 0)), (''conflictResolution'', JNum (Fin 0)),
                 (''boundaryKeeping'', JNum (Fin 0)), (''patience'', JNum (Fin 0))]) n"
    by (simp add: updateSkills_def skillEntry_def)
  have 4: "\<exists>r. updateSkills (JObj cs) (JObj []) n = Inr r"
    using updateSkills_Inr[of "JObj cs" "JObj []" n] by simp
  have 5: "fst (saveSessionResults e s session) = Inr (Failure TypeError) \<and>
      users (fst (snd (saveSessionResults e s session))) = users s \<and>
      userDoc (fst (snd (saveSessionResults e s session))) = userDoc s"
    if "currentUser s = Some uid" "userDoc s = Some doc" "isNullish (skillsGained session)"
  proof -
    have "updateSkills (skills doc) (skillsGained session) (newTotalSessions (progress doc))
            = Inl TypeError"
      using that(3) by (rule updateSkills_nullish_session)
    then show ?thesis
      using that(1,2) by (simp add: saveSessionResults_def tryBody_def)
  qed
  show ?thesis using 1 2 3 4 5 by metis
qed

theorem updateSkills_absent_gained_map_witness:
  "fst (saveSessionResults (dayEnv 0) (syncedState ''u'' initialData)
          \<lparr> score = Fin 80, duration = Fin 600, skillsGained = JUndefined \<rparr>)
     = Inr (Failure TypeError) \<and>
   users (fst (snd (saveSessionResults (dayEnv 0) (syncedState ''u'' initialData)
          \<lparr> score = Fin 80, duration = Fin 600, skillsGained = JUndefined \<rparr>)))
     = [''u'' \<mapsto> initialData]"
  using updateSkills_absent_gained_map[of JNull "Fin 0" "[]" "syncedState ''u'' initialData"
      "''u''" initialData
      "\<lparr> score = Fin 80, duration = Fin 600, skillsGained = JUndefined \<rparr>" "dayEnv 0"]
  by (simp add: syncedState_def)

lemma getProp_Inr_not_nullish: "getProp v k = Inr x \<Longrightarrow> \<not> isNullish v"
  by (cases v) simp_all

lemma updateSkills_entry_value:
  assumes "k \<in> set skillNames"
    and "getProp currentSkills k = Inr cv" and "getProp sessionSkills k = Inr gv"
  shows "\<exists>r. updateSkills currentSkills sessionSkills n = Inr r \<and>
             getProp r k = Inr (JNum (roundedClampedSkill (numberOr 50 cv) (numberOr 0 gv)))"
proof -
  have nn: "\<not> isNullish currentSkills" "\<not> isNullish sessionSkills"
    using assms(2,3) by (auto dest: getProp_Inr_not_nullish)
  show ?thesis
    using updateSkills_entry[OF nn assms(1), of n] skillEntry_eq[OF assms(2,3)] by simp
qed

text \<open>The weighted sum is a binary64 computation. For the current value 1 and the gain 36
  it is 11.499999999999998 and the skill is 11, where the exact sum is 11.5 and rounds to
  12.\<close>

lemma weighted_sum_is_binary64:
  "roundedClampedSkill (Fin 1) (Fin 36) = Fin 11 \<and>
   round (1 * (7 / 10) + 36 * (3 / 10) :: rat) = 12"
proof -
  have "roundedClampedSkill (Fin 1) (Fin 36) = Fin 11" by code_simp
  moreover have "round (1 * (7 / 10) + 36 * (3 / 10) :: rat) = 12" by (simp add: round_def)
  ultimately show ?thesis by simp
qed

text \<open>
  Claim C5, as stated: each skill is round(min(100, c*0.7 + g*0.3)), where c is the current
  value if it is a finite number and 50 otherwise, and with an empty gained map it is
  round(c*0.7). For the current value \<^verbatim>\<open>Infinity\<close> and an empty gained map both formulas
  give 35, and updateSkills returns 100: the value passes the test
  \<^verbatim>\<open>typeof val === 'number' && !isNaN(val)\<close>. For the current value 200 and an empty gained
  map, round(c*0.7) is 140 and updateSkills returns 100.
\<close>

theorem updateSkills_formula_counterexample:
  "updateSkills (JObj [(''empathy'', JNum PInf)]) (JObj []) (Fin 1) =
     Inr (JObj [(''empathy'', JNum (Fin 100)), (''conflictResolution'', JNum (Fin 35)),
                (''boundaryKeeping'', JNum (Fin 35)), (''patience'', JNum (Fin 35))]) \<and>
   roundedClampedSkill (finiteOr 50 (JNum PInf)) (finiteOr 0 JUndefined) = Fin 35 \<and>
   jround (jmul (finiteOr 50 (JNum PInf)) HISTORY_WEIGHT) = Fin 35 \<and>
   updateSkills (JObj [(''empathy'', JNum (Fin 200))]) (JObj []) (Fin 1) =
     Inr (JObj [(''empathy'', JNum (Fin 100)), (''conflictResolution'', JNum (Fin 35)),
                (''boundaryKeeping'', JNum (Fin 35)), (''patience'', JNum (Fin 35))]) \<and>
   jround (jmul (finiteOr 50 (JNum (Fin 200))) HISTORY_WEIGHT) = Fin 140"
  by (simp add: updateSkills_def skillEntry_def roundedClampedSkill_def finiteOr_def weighted)

text \<open>
  Claim C5, amended: for each of the four skill names, updateSkills returns
  round(min(100, c*0.7 + g*0.3)), the products and the sum being binary64 operations, where
  c is the current value if it is a number other than \<^verbatim>\<open>NaN\<close> and 50 otherwise, and g is
  the gained value if it is a number other than \<^verbatim>\<open>NaN\<close> and 0 otherwise; with an empty
  gained map every skill is min(100, round(c*0.7)), which is round(c*0.7) when c*0.7 is
  less than 100.5.
\<close>

theorem updateSkills_formula:
  assumes "k \<in> set skillNames"
    and "getProp currentSkills k = Inr cv" and "getProp sessionSkills k = Inr gv"
  shows "\<exists>r. updateSkills currentSkills sessionSkills n = Inr r \<and>
     getProp r k = Inr (JNum (roundedClampedSkill (numberOr 50 cv) (numberOr 0 gv))) \<and>
     (sessionSkills = JObj [] \<longrightarrow>
        getProp r k = Inr (JNum (jmin (Fin 100) (jround (jmul (numberOr 50 cv) HISTORY_WEIGHT)))) \<and>
        (\<forall>y. jmul (numberOr 50 cv) HISTORY_WEIGHT = Fin y \<and> y < 100 + 1 / 2 \<longrightarrow>
             getProp r k = Inr (JNum (Fin (of_int (round y))))))"
proof -
  obtain r where r: "updateSkills currentSkills sessionSkills n = Inr r"
    and rk: "getProp r k = Inr (JNum (roundedClampedSkill (numberOr 50 cv) (numberOr 0 gv)))"
    using updateSkills_entry_value[OF assms, of n] by blast
  have empty: "getProp r k = Inr (JNum (jmin (Fin 100) (jround (jmul (numberOr 50 cv) HISTORY_WEIGHT))))"
    if "sessionSkills = JObj []"
  proof -
    have "gv = JUndefined" using that assms(3) by simp
    then have "numberOr 0 gv = Fin 0" by (simp add: numberOr_def)
    moreover have "jmul (Fin 0) RECENT_WEIGHT = Fin 0" by (simp add: RECENT_WEIGHT_value)
    ultimately show ?thesis
      using rk by (simp add: roundedClampedSkill_def jmul_zero_right jround_jmin_100)
  qed
  have small: "getProp r k = Inr (JNum (Fin (of_int (round y))))"
    if "sessionSkills = JObj []" "jmul (numberOr 50 cv) HISTORY_WEIGHT = Fin y" "y < 100 + 1 / 2" for y
  proof -
    define f where "f = \<lfloor>y + 1 / 2\<rfloor>"
    have "y + 1 / 2 < of_int 101" using that(3) by simp
    then have "f < 101" unfolding f_def by (simp only: floor_less_iff)
    then have "(of_int f :: rat) \<le> 100" by simp
    then have m: "min (100::rat) (of_int f) = of_int f" by (rule min_absorb2)
    have "jmin (Fin 100) (jround (Fin y)) = Fin (min 100 (of_int f))"
      unfolding f_def by simp
    then have "jmin (Fin 100) (jround (Fin y)) = Fin (of_int (round y))"
      unfolding m by (simp add: f_def round_def)
    then show ?thesis using empty[OF that(1)] that(2) by simp
  qed
  show ?thesis using r rk empty small by blast
qed

theorem updateSkills_formula_witness:
  "\<exists>r. updateSkills (JObj [(''patience'', JNum (Fin 50))]) (JObj []) (Fin 1) = Inr r \<and>
       getProp r ''patience'' = Inr (JNum (Fin 35))"
proof -
  have v: "roundedClampedSkill (Fin 50) (Fin 0) = Fin 35"
    by (simp add: roundedClampedSkill_def weighted)
  show ?thesis
    using updateSkills_formula[of "''patience''" "JObj [(''patience'', JNum (Fin 50))]"
        "JNum (Fin 50)" "JObj []" JUndefined "Fin 1"] v
    by (auto simp add: skillNames_def numberOr_def)
qed

lemma numberOr_valid:
  assumes "validSkillValue v" "0 \<le> d" "d \<le> 100"
  shows "\<exists>q. numberOr d v = Fin q \<and> 0 \<le> q \<and> q \<le> 100"
proof (cases v)
  case (JNum x)
  then show ?thesis using assms by (cases x) (simp_all add: numberOr_def)
qed (use assms in \<open>simp_all add: numberOr_def\<close>)

lemma jmul_weight_nonneg:
  assumes "0 \<le> c" "0 \<le> w"
  shows "jmul (Fin c) (Fin w) = PInf \<or> (\<exists>v. jmul (Fin c) (Fin w) = Fin v \<and> 0 \<le> v)"
  using binary64_nonneg[of "c * w"] assms by simp

lemma clamp_round_range:
  assumes "x = PInf \<or> (\<exists>v. x = Fin v \<and> 0 \<le> v)"
  shows "\<exists>i. jround (jmin (Fin 100) x) = Fin (of_int i) \<and> 0 \<le> i \<and> i \<le> 100"
proof -
  obtain m where m: "jmin (Fin 100) x = Fin m" "0 \<le> m" "m \<le> 100"
    using assms by (auto simp add: min_def)
  have "\<lfloor>(0::rat)\<rfloor> \<le> \<lfloor>m + 1 / 2\<rfloor>" using m(2) by (intro floor_mono) simp
  then have l: "0 \<le> \<lfloor>m + 1 / 2\<rfloor>" by simp
  have "\<lfloor>m + 1 / 2\<rfloor> \<le> \<lfloor>(100::rat) + 1 / 2\<rfloor>" using m(3) by (intro floor_mono) simp
  also have "\<lfloor>(100::rat) + 1 / 2\<rfloor> = 100" by simp
  finally have h: "\<lfloor>m + 1 / 2\<rfloor> \<le> 100" .
  show ?thesis using l h by (simp add: m(1))
qed

lemma roundedClampedSkill_range:
  assumes "0 \<le> c" "0 \<le> g"
  shows "\<exists>i. roundedClampedSkill (Fin c) (Fin g) = Fin (of_int i) \<and> 0 \<le> i \<and> i \<le> 100"
proof -
  have a: "jmul (Fin c) HISTORY_WEIGHT = PInf \<or> (\<exists>v. jmul (Fin c) HISTORY_WEIGHT = Fin v \<and> 0 \<le> v)"
    unfolding HISTORY_WEIGHT_value using assms(1) by (intro jmul_weight_nonneg) simp_all
  have b: "jmul (Fin g) RECENT_WEIGHT = PInf \<or> (\<exists>v. jmul (Fin g) RECENT_WEIGHT = Fin v \<and> 0 \<le> v)"
    unfolding RECENT_WEIGHT_value using assms(2) by (intro jmul_weight_nonneg) simp_all
  have "jadd (jmul (Fin c) HISTORY_WEIGHT) (jmul (Fin g) RECENT_WEIGHT) = PInf \<or>
        (\<exists>v. jadd (jmul (Fin c) HISTORY_WEIGHT) (jmul (Fin g) RECENT_WEIGHT) = Fin v \<and> 0 \<le> v)"
  proof -
    consider (pa) "jmul (Fin c) HISTORY_WEIGHT = PInf"
      | (pb) va where "jmul (Fin c) HISTORY_WEIGHT = Fin va" "0 \<le> va"
          "jmul (Fin g) RECENT_WEIGHT = PInf"
      | (ff) va vb where "jmul (Fin c) HISTORY_WEIGHT = Fin va" "0 \<le> va"
          "jmul (Fin g) RECENT_WEIGHT = Fin vb" "0 \<le> vb"
      using a b by blast
    then show ?thesis
    proof cases
      case pa
      then show ?thesis using b by auto
    next
      case pb
      then show ?thesis by simp
    next
      case ff
      then show ?thesis using binary64_nonneg[of "va + vb"] by simp
    qed
  qed
  then show ?thesis unfolding roundedClampedSkill_def by (rule clamp_round_range)
qed

lemma jmin_100_at_most: "jmin (Fin 100) x = NaN \<or> jge (Fin 100) (jmin (Fin 100) x)"
  by (cases x) simp_all

lemma skillEntry_at_most_100:
  assumes "skillEntry currentSkills sessionSkills k = Inr v"
  shows "v = NaN \<or> jge (Fin 100) v"
proof -
  from assms obtain x where "v = jmin (Fin 100) x"
    by (auto simp add: skillEntry_def split: sum.splits)
  then show ?thesis using jmin_100_at_most[of x] by simp
qed

lemma updateSkills_at_most_100:
  assumes "\<not> isNullish currentSkills" "\<not> isNullish sessionSkills"
  shows "\<exists>r. updateSkills currentSkills sessionSkills n = Inr r \<and>
           (\<forall>k \<in> set skillNames. \<exists>v. getProp r k = Inr (JNum v) \<and>
                (v = NaN \<or> jge (Fin 100) v))"
proof -
  obtain r where r: "updateSkills currentSkills sessionSkills n = Inr r"
    using updateSkills_Inr[OF assms, of n] by blast
  have "\<exists>v. getProp r k = Inr (JNum v) \<and> (v = NaN \<or> jge (Fin 100) v)"
    if k: "k \<in> set skillNames" for k
  proof -
    obtain v where v: "skillEntry currentSkills sessionSkills k = Inr v"
      using skillEntry_Inr[OF assms, of k] by blast
    obtain r' where r': "updateSkills currentSkills sessionSkills n = Inr r'"
      and e: "getProp r' k = Inr (JNum (projr (skillEntry currentSkills sessionSkills k)))"
      using updateSkills_entry[OF assms k, of n] by blast
    show ?thesis using skillEntry_at_most_100[OF v] v r r' e by auto
  qed
  then show ?thesis using r by blast
qed

text \<open>
  Claim C8. When every present value of the four skills in the current map and in the
  gained map is an integer between 0 and 100, each of the four skills that updateSkills
  returns is an integer between 0 and 100.

  The upper bound is that of the explicit clamp \<^verbatim>\<open>Math.min(100, ...)\<close>: whatever the two
  maps hold, a returned skill is never above 100 (it is \<^verbatim>\<open>NaN\<close>, or \<^verbatim>\<open>100 >= v\<close> holds), and
  the clamp acts: a current skill of 200 with no gain gives 100, where the rounded weighted
  sum is 140. The lower bound has no clamp: a negative gain makes a skill negative (current
  0 and gain -100 give -30).
\<close>

theorem updateSkills_range:
  "((\<forall>k \<in> set skillNames. \<exists>cv gv.
        getProp currentSkills k = Inr cv \<and> validSkillValue cv \<and>
        getProp sessionSkills k = Inr gv \<and> validSkillValue gv) \<longrightarrow>
      (\<exists>r. updateSkills currentSkills sessionSkills n = Inr r \<and>
           (\<forall>k \<in> set skillNames. \<exists>i. getProp r k = Inr (JNum (Fin (of_int i))) \<and>
                0 \<le> i \<and> i \<le> 100))) \<and>
   (\<not> isNullish currentSkills \<and> \<not> isNullish sessionSkills \<longrightarrow>
      (\<exists>r. updateSkills currentSkills sessionSkills n = Inr r \<and>
           (\<forall>k \<in> set skillNames. \<exists>v. getProp r k = Inr (JNum v) \<and>
                (v = NaN \<or> jge (Fin 100) v)))) \<and>
   updateSkills (JObj [(''empathy'', JNum (Fin 200))]) (JObj []) n
     = Inr (JObj [(''empathy'', JNum (Fin 100)), (''conflictResolution'', JNum (Fin 35)),
                  (''boundaryKeeping'', JNum (Fin 35)), (''patience'', JNum (Fin 35))]) \<and>
   jround (jadd (jmul (getCur (JNum (Fin 200))) HISTORY_WEIGHT)
                (jmul (getVal JUndefined) RECENT_WEIGHT)) = Fin 140 \<and>
   updateSkills (JObj [(''empathy'', JNum (Fin 0))]) (JObj [(''empathy'', JNum (Fin (- 100)))]) n
     = Inr (JObj [(''empathy'', JNum (Fin (- 30))), (''conflictResolution'', JNum (Fin 35)),
                  (''boundaryKeeping'', JNum (Fin 35)), (''patience'', JNum (Fin 35))])"
proof -
  have main: "\<exists>r. updateSkills currentSkills sessionSkills n = Inr r \<and>
           (\<forall>k \<in> set skillNames. \<exists>i. getProp r k = Inr (JNum (Fin (of_int i))) \<and>
                0 \<le> i \<and> i \<le> 100)"
    if valid: "\<forall>k \<in> set skillNames. \<exists>cv gv.
        getProp currentSkills k = Inr cv \<and> validSkillValue cv \<and>
        getProp sessionSkills k = Inr gv \<and> validSkillValue gv"
  proof -
    have "''empathy'' \<in> set skillNames" by (simp add: skillNames_def)
    with valid obtain cv0 gv0 where "getProp currentSkills ''empathy'' = Inr cv0"
      "getProp sessionSkills ''empathy'' = Inr gv0" by blast
    then have nn: "\<not> isNullish currentSkills" "\<not> isNullish sessionSkills"
      by (auto dest: getProp_Inr_not_nullish)
    obtain r where r: "updateSkills currentSkills sessionSkills n = Inr r"
      using updateSkills_Inr[OF nn, of n] by blast
    have "\<exists>i. getProp r k = Inr (JNum (Fin (of_int i))) \<and> 0 \<le> i \<and> i \<le> 100"
      if k: "k \<in> set skillNames" for k
    proof -
      from valid k obtain cv gv where c: "getProp currentSkills k = Inr cv" "validSkillValue cv"
        and g: "getProp sessionSkills k = Inr gv" "validSkillValue gv" by blast
      obtain r' where r': "updateSkills currentSkills sessionSkills n = Inr r'"
        and v: "getProp r' k = Inr (JNum (roundedClampedSkill (numberOr 50 cv) (numberOr 0 gv)))"
        using updateSkills_entry_value[OF k c(1) g(1), of n] by blast
      obtain qc where qc: "numberOr 50 cv = Fin qc" "0 \<le> qc"
        using numberOr_valid[OF c(2), of 50] by auto
      obtain qg where qg: "numberOr 0 gv = Fin qg" "0 \<le> qg"
        using numberOr_valid[OF g(2), of 0] by auto
      show ?thesis
        using roundedClampedSkill_range[OF qc(2) qg(2)] v r r' qc(1) qg(1) by auto
    qed
    then show ?thesis using r by blast
  qed
  have clamp: "\<exists>r. updateSkills currentSkills sessionSkills n = Inr r \<and>
           (\<forall>k \<in> set skillNames. \<exists>v. getProp r k = Inr (JNum v) \<and>
                (v = NaN \<or> jge (Fin 100) v))"
    if "\<not> isNullish currentSkills \<and> \<not> isNullish sessionSkills"
    using that updateSkills_at_most_100[of currentSkills sessionSkills n] by blast
  have acts: "updateSkills (JObj [(''empathy'', JNum (Fin 200))]) (JObj []) n
     = Inr (JObj [(''empathy'', JNum (Fin 100)), (''conflictResolution'', JNum (Fin 35)),
                  (''boundaryKeeping'', JNum (Fin 35)), (''patience'', JNum (Fin 35))])"
    by (simp add: updateSkills_def skillEntry_def weighted)
  have unclamped: "jround (jadd (jmul (getCur (JNum (Fin 200))) HISTORY_WEIGHT)
                (jmul (getVal JUndefined) RECENT_WEIGHT)) = Fin 140"
    by (simp add: weighted)
  have neg: "updateSkills (JObj [(''empathy'', JNum (Fin 0))])
               (JObj [(''empathy'', JNum (Fin (- 100)))]) n
     = Inr (JObj [(''empathy'', JNum (Fin (- 30))), (''conflictResolution'', JNum (Fin 35)),
                  (''boundaryKeeping'', JNum (Fin 35)), (''patience'', JNum (Fin 35))])"
    by (simp add: updateSkills_def skillEntry_def weighted)
  show ?thesis using main clamp acts unclamped neg by blast
qed

theorem updateSkills_range_witness:
  "(\<exists>r. updateSkills (JObj [(''empathy'', JNum (Fin 100))])
            (JObj [(''empathy'', JNum (Fin 100)), (''patience'', JNum (Fin 0))]) (Fin 1) = Inr r \<and>
       (\<forall>k \<in> set skillNames. \<exists>i. getProp r k = Inr (JNum (Fin (of_int i))) \<and>
            0 \<le> i \<and> i \<le> 100)) \<and>
   (\<exists>r. updateSkills (JObj [(''empathy'', JNum (Fin 200))]) (JObj []) (Fin 1) = Inr r \<and>
       (\<forall>k \<in> set skillNames. \<exists>v. getProp r k = Inr (JNum v) \<and>
            (v = NaN \<or> jge (Fin 100) v)))"
  using updateSkills_range[of "JObj [(''empathy'', JNum (Fin 100))]"
      "JObj [(''empathy'', JNum (Fin 100)), (''patience'', JNum (Fin 0))]" "Fin 1"]
    updateSkills_range[of "JObj [(''empathy'', JNum (Fin 200))]" "JObj []" "Fin 1"]
  by (simp add: skillNames_def)

section \<open>saveSessionResults\<close>

lemmas save_defs = saveSessionResults_def tryBody_def updateSkills_def skillEntry_def
   weighted newTotalSessions_def newAverageScore_def newStreak_def
   checkAchievements_def getAchievementsToCheck_def skillAtLeast_def
   performUpdate_def applyUpdates_def loadUserData_def calculateStreak_eval

text \<open>
  Claim C2, on the code. In the scenario (no sessions yet, no current skill present, a
  first session of score 95 with gains empathy 90 and patience 95) the call succeeds with
  totalSessions 1, averageScore 95, streak 1, empathy 62 and patience 64, and unlocks
  perfectionist and not patient_teacher, as claimed; it does not unlock first_session,
  whose requirement is evaluated on the document loaded before the update.
\<close>

theorem scenario_first_session:
  "fst (saveSessionResults e (syncedState ''u'' scenarioDoc) scenarioSession) = Inr (Success 0) \<and>
   map_option progress (userDoc (fst (snd (saveSessionResults e (syncedState ''u'' scenarioDoc) scenarioSession))))
     = Some \<lparr> totalSessions = Fin 1, completedScenarios = Fin 1, averageScore = Fin 95,
              totalTimeSpent = Fin 600, streak = Fin 1, lastSessionDate = Some (serverNow e) \<rparr> \<and>
   map_option skills (userDoc (fst (snd (saveSessionResults e (syncedState ''u'' scenarioDoc) scenarioSession))))
     = Some (JObj [(''empathy'', JNum (Fin 62)), (''conflictResolution'', JNum (Fin 35)),
                (''boundaryKeeping'', JNum (Fin 35)), (''patience'', JNum (Fin 64))]) \<and>
   snd (snd (saveSessionResults e (syncedState ''u'' scenarioDoc) scenarioSession)) = [''perfectionist'']"
  by (simp add: save_defs syncedState_def scenarioDoc_def scenarioSession_def)


lemma applyUpdates_Nil: "applyUpdates [] d = d"
  by (simp add: applyUpdates_def)

lemma saveSessionResults_success:
  assumes "currentUser s = Some uid" "userDoc s = Some doc" "users s uid = Some stored"
    and "updateSkills (skills doc) (skillsGained session) (newTotalSessions (progress doc))
           = Inr newSkills"
    and "checkLoop doc session (serverNow e) getAchievementsToCheck [] = Inr updates"
    and "final = applyUpdates updates (performUpdate e (progress doc) session newSkills stored)"
  shows "saveSessionResults e s session =
           (Inr (Success (length (sessions s))),
            s\<lparr> userDoc := Some final, users := (users s)(uid \<mapsto> final),
               sessions := sessions s @ [(uid, session, serverNow e)] \<rparr>,
            map fst updates)"
proof (cases "updates = []")
  case True
  then show ?thesis using assms
    by (simp add: saveSessionResults_def tryBody_def checkAchievements_def loadUserData_def
        applyUpdates_Nil)
next
  case False
  then show ?thesis using assms
    by (simp add: saveSessionResults_def tryBody_def checkAchievements_def loadUserData_def)
qed


lemma checkLoop_Inr:
  assumes "\<forall>a \<in> set as. \<exists>b. requirement a doc session = Inr b"
  shows "\<exists>u. checkLoop doc session ts as acc = Inr u"
  using assms
proof (induction as arbitrary: acc)
  case Nil
  then show ?case by simp
next
  case (Cons a as)
  then obtain b where b: "requirement a doc session = Inr b" by auto
  from Cons have "\<And>acc. \<exists>u. checkLoop doc session ts as acc = Inr u" by simp
  then show ?case using b by (cases b) simp_all
qed

lemma requirements_Inr:
  assumes "\<not> isNullish (skills doc)"
  shows "\<forall>a \<in> set getAchievementsToCheck. \<exists>b. requirement a doc session = Inr b"
proof -
  obtain x where "getProp (skills doc) ''empathy'' = Inr x" using assms getProp_Inr by blast
  moreover obtain y where "getProp (skills doc) ''patience'' = Inr y"
    using assms getProp_Inr by blast
  ultimately show ?thesis by (simp add: getAchievementsToCheck_def skillAtLeast_def)
qed

lemma checkAchievements_table_Inr:
  assumes "\<not> isNullish (skills doc)"
  shows "\<exists>u. checkLoop doc session ts getAchievementsToCheck [] = Inr u"
  using checkLoop_Inr[OF requirements_Inr[OF assms]] by blast


lemma saveSessionResults_ok:
  assumes "currentUser s = Some uid" "userDoc s = Some doc" "users s uid = Some stored"
    and "\<not> isNullish (skills doc)" "\<not> isNullish (skillsGained session)"
  shows "\<exists>newSkills updates.
           updateSkills (skills doc) (skillsGained session) (newTotalSessions (progress doc))
             = Inr newSkills \<and>
           checkLoop doc session (serverNow e) getAchievementsToCheck [] = Inr updates \<and>
           saveSessionResults e s session =
             (Inr (Success (length (sessions s))),
              s\<lparr> userDoc := Some (applyUpdates updates
                                      (performUpdate e (progress doc) session newSkills stored)),
                 users := (users s)(uid \<mapsto> applyUpdates updates
                                      (performUpdate e (progress doc) session newSkills stored)),
                 sessions := sessions s @ [(uid, session, serverNow e)] \<rparr>,
              map fst updates)"
proof -
  obtain newSkills where ns: "updateSkills (skills doc) (skillsGained session)
      (newTotalSessions (progress doc)) = Inr newSkills"
    using updateSkills_Inr[OF assms(4,5)] by blast
  obtain updates where up: "checkLoop doc session (serverNow e) getAchievementsToCheck [] = Inr updates"
    using checkAchievements_table_Inr[OF assms(4)] by blast
  show ?thesis
    using saveSessionResults_success[OF assms(1,2,3) ns up refl] ns up by blast
qed




lemma jadd_of_int:
  assumes "\<bar>i + j\<bar> < 2 ^ 53"
  shows "jadd (Fin (of_int i)) (Fin (of_int j)) = Fin (of_int (i + j))"
  using binary64_of_int[OF assms] by simp

lemma jmul_of_int:
  assumes "\<bar>i * j\<bar> < 2 ^ 53"
  shows "jmul (Fin (of_int i)) (Fin (of_int j)) = Fin (of_int (i * j))"
  using binary64_of_int[OF assms] by simp

lemma average_binary64:
  fixes n a sc :: int
  assumes "0 \<le> n" "n < 2 ^ 52" "\<bar>a * n\<bar> < 2 ^ 53" "\<bar>a * n + sc\<bar> < 2 ^ 52"
  shows "jadd (Fin (of_int n)) (Fin 1) = Fin (of_int (n + 1))"
    and "jround (jdiv (jadd (jmul (Fin (of_int a)) (Fin (of_int n))) (Fin (of_int sc)))
                      (jadd (Fin (of_int n)) (Fin 1)))
         = Fin (of_int (round ((of_int (a * n + sc) :: rat) / of_int (n + 1))))"
proof -
  define p where "p = a * n + sc"
  define d where "d = n + 1"
  have d: "0 < d" "d \<le> 2 ^ 52" using assms(1,2) by (simp_all add: d_def)
  have p: "\<bar>p\<bar> < 2 ^ 52" using assms(4) by (simp add: p_def)
  have "\<bar>n + 1\<bar> < 2 ^ 53" using assms(1,2) by simp
  then have "jadd (Fin (of_int n)) (Fin (of_int 1)) = Fin (of_int (n + 1))" by (rule jadd_of_int)
  then show n1: "jadd (Fin (of_int n)) (Fin 1) = Fin (of_int (n + 1))" by simp
  have m: "jmul (Fin (of_int a)) (Fin (of_int n)) = Fin (of_int (a * n))"
    using assms(3) by (rule jmul_of_int)
  have "\<bar>a * n + sc\<bar> < 2 ^ 53" using assms(4) by simp
  then have s: "jadd (Fin (of_int (a * n))) (Fin (of_int sc)) = Fin (of_int p)"
    unfolding p_def by (rule jadd_of_int)
  have dq: "(0::rat) < of_int d" "(1::rat) \<le> of_int d" using d(1) by simp_all
  have "\<bar>(of_int p :: rat) / of_int d\<bar> = of_int \<bar>p\<bar> / of_int d"
    using dq(1) by (simp add: abs_of_pos)
  also have "\<dots> \<le> of_int \<bar>p\<bar> / 1" using dq(2) by (intro divide_left_mono) auto
  also have "\<dots> < 2 ^ 53"
  proof -
    have "\<bar>p\<bar> < 2 ^ 53" using p by simp
    then have "(of_int \<bar>p\<bar> :: rat) < of_int (2 ^ 53)" by (simp only: of_int_less_iff)
    then show ?thesis by simp
  qed
  finally have "binary64 (of_int p / of_int d) = Fin (nearest64 (of_int p / of_int d))"
    by (rule binary64_small)
  then have q: "jdiv (Fin (of_int p)) (Fin (of_int d)) = Fin (nearest64 (of_int p / of_int d))"
    using d(1) by simp
  have "jround (jdiv (jadd (jmul (Fin (of_int a)) (Fin (of_int n))) (Fin (of_int sc)))
                      (jadd (Fin (of_int n)) (Fin 1)))
        = jround (Fin (nearest64 (of_int p / of_int d)))"
    unfolding m s n1 d_def[symmetric] q ..
  also have "\<dots> = Fin (of_int \<lfloor>(of_int p / of_int d :: rat) + 1 / 2\<rfloor>)"
    using floor_half_nearest64_quotient[OF d p] by simp
  finally show "jround (jdiv (jadd (jmul (Fin (of_int a)) (Fin (of_int n))) (Fin (of_int sc)))
                      (jadd (Fin (of_int n)) (Fin 1)))
         = Fin (of_int (round ((of_int (a * n + sc) :: rat) / of_int (n + 1))))"
    by (simp add: round_def p_def d_def)
qed

text \<open>
  Claim C6. The fold stores totalSessions' = totalSessions + 1 and
  averageScore' = round((averageScore * totalSessions + score) / totalSessions'), computed
  from the stored (rounded) average and the count of the loaded document; for a prior state
  with totalSessions = n and averageScore = a and a session of score s, all integers of
  moderate size, these are n + 1 and round((a * n + s) / (n + 1)) exactly. A second session
  of score 60 after a first of 95 gives 78.
\<close>

theorem saveSessionResults_average:
  assumes "currentUser s = Some uid" "userDoc s = Some doc" "users s uid = Some stored"
    and "\<not> isNullish (skills doc)" "\<not> isNullish (skillsGained session)"
  shows "\<exists>doc'. userDoc (fst (snd (saveSessionResults e s session))) = Some doc' \<and>
           users (fst (snd (saveSessionResults e s session))) uid = Some doc' \<and>
           totalSessions (progress doc') = jadd (totalSessions (progress doc)) (Fin 1) \<and>
           averageScore (progress doc') =
             jround (jdiv (jadd (jmul (averageScore (progress doc)) (totalSessions (progress doc)))
                                (score session))
                          (jadd (totalSessions (progress doc)) (Fin 1))) \<and>
           (\<forall>n a sc. totalSessions (progress doc) = Fin (of_int n) \<and>
                averageScore (progress doc) = Fin (of_int a) \<and> score session = Fin (of_int sc) \<and>
                0 \<le> n \<and> n < 2 ^ 52 \<and> \<bar>a * n\<bar> < 2 ^ 53 \<and> \<bar>a * n + sc\<bar> < 2 ^ 52 \<longrightarrow>
              totalSessions (progress doc') = Fin (of_int (n + 1)) \<and>
              averageScore (progress doc') =
                Fin (of_int (round ((of_int (a * n + sc) :: rat) / of_int (n + 1)))))"
proof -
  obtain newSkills updates where
    r: "saveSessionResults e s session =
             (Inr (Success (length (sessions s))),
              s\<lparr> userDoc := Some (applyUpdates updates
                                      (performUpdate e (progress doc) session newSkills stored)),
                 users := (users s)(uid \<mapsto> applyUpdates updates
                                      (performUpdate e (progress doc) session newSkills stored)),
                 sessions := sessions s @ [(uid, session, serverNow e)] \<rparr>,
              map fst updates)"
    using saveSessionResults_ok[OF assms(1-5), of e] by blast
  define doc' where
    "doc' = applyUpdates updates (performUpdate e (progress doc) session newSkills stored)"
  have l: "userDoc (fst (snd (saveSessionResults e s session))) = Some doc'"
    and u: "users (fst (snd (saveSessionResults e s session))) uid = Some doc'"
    unfolding r doc'_def by simp_all
  have t: "totalSessions (progress doc') = jadd (totalSessions (progress doc)) (Fin 1)"
    by (simp add: doc'_def applyUpdates_def performUpdate_def newTotalSessions_def)
  have av: "averageScore (progress doc') =
             jround (jdiv (jadd (jmul (averageScore (progress doc)) (totalSessions (progress doc)))
                                (score session))
                          (jadd (totalSessions (progress doc)) (Fin 1)))"
    by (simp add: doc'_def applyUpdates_def performUpdate_def newAverageScore_def
        newTotalSessions_def)
  have fin: "totalSessions (progress doc') = Fin (of_int (n + 1)) \<and>
              averageScore (progress doc') =
                Fin (of_int (round ((of_int (a * n + sc) :: rat) / of_int (n + 1))))"
    if "totalSessions (progress doc) = Fin (of_int n)"
      "averageScore (progress doc) = Fin (of_int a)" "score session = Fin (of_int sc)"
      "0 \<le> n" "n < 2 ^ 52" "\<bar>a * n\<bar> < 2 ^ 53" "\<bar>a * n + sc\<bar> < 2 ^ 52" for n a sc
    unfolding t av that(1,2,3) using average_binary64[OF that(4-7)] by simp
  show ?thesis using l u t av fin by blast
qed

theorem saveSessionResults_average_witness:
  "\<exists>doc'. userDoc (fst (snd (saveSessionResults (dayEnv 1)
            (syncedState ''u'' (initialData\<lparr> progress := (progress initialData)
                \<lparr> totalSessions := Fin 1, averageScore := Fin 95 \<rparr> \<rparr>))
            (plainSession 60)))) = Some doc' \<and>
      totalSessions (progress doc') = Fin 2 \<and> averageScore (progress doc') = Fin 78"
proof -
  obtain doc' where d: "userDoc (fst (snd (saveSessionResults (dayEnv 1)
            (syncedState ''u'' (initialData\<lparr> progress := (progress initialData)
                \<lparr> totalSessions := Fin 1, averageScore := Fin 95 \<rparr> \<rparr>))
            (plainSession 60)))) = Some doc'"
    and f: "\<forall>n a sc. Fin 1 = Fin (of_int n) \<and> Fin 95 = Fin (of_int a) \<and>
                Fin 60 = Fin (of_int sc) \<and>
                0 \<le> n \<and> n < 2 ^ 52 \<and> \<bar>a * n\<bar> < 2 ^ 53 \<and> \<bar>a * n + sc\<bar> < 2 ^ 52 \<longrightarrow>
              totalSessions (progress doc') = Fin (of_int (n + 1)) \<and>
              averageScore (progress doc') =
                Fin (of_int (round ((of_int (a * n + sc) :: rat) / of_int (n + 1))))"
    using saveSessionResults_average[of
      "syncedState ''u'' (initialData\<lparr> progress := (progress initialData)
                \<lparr> totalSessions := Fin 1, averageScore := Fin 95 \<rparr> \<rparr>)"
      "''u''"
      "initialData\<lparr> progress := (progress initialData)
                \<lparr> totalSessions := Fin 1, averageScore := Fin 95 \<rparr> \<rparr>"
      "initialData\<lparr> progress := (progress initialData)
                \<lparr> totalSessions := Fin 1, averageScore := Fin 95 \<rparr> \<rparr>"
      "plainSession 60" "dayEnv 1"]
    by (auto simp add: syncedState_def initialData_def plainSession_def)
  from f[rule_format, of 1 95 60] have "totalSessions (progress doc') = Fin 2"
    "averageScore (progress doc') = Fin 78"
    by (simp_all add: round_def)
  then show ?thesis using d by blast
qed

section \<open>Achievements unlocked by a call\<close>

lemma checkLoop_ids:
  assumes "checkLoop doc session ts as acc = Inr u" "k \<in> fst ` set u"
  shows "k \<in> fst ` set acc \<or>
         (\<exists>a \<in> set as. achievementId a = k \<and> achievements doc k = None \<and>
                requirement a doc session = Inr True)"
  using assms
proof (induction as arbitrary: acc)
  case Nil
  then show ?case by simp
next
  case (Cons a as)
  show ?case
  proof (cases "achievements doc (achievementId a) \<noteq> None")
    case True
    then have "checkLoop doc session ts as acc = Inr u" using Cons.prems(1) by simp
    from Cons.IH[OF this Cons.prems(2)] show ?thesis by auto
  next
    case False
    then have none: "achievements doc (achievementId a) = None" by simp
    show ?thesis
    proof (cases "requirement a doc session")
      case (Inl e)
      then show ?thesis using Cons.prems(1) none by simp
    next
      case (Inr b)
      show ?thesis
      proof (cases b)
        case True
        then have "checkLoop doc session ts as (acc @ [(achievementId a, \<lparr> unlockedAt = ts \<rparr>)]) = Inr u"
          using Cons.prems(1) none Inr by simp
        from Cons.IH[OF this Cons.prems(2)] show ?thesis
          using none Inr True by auto
      next
        case False
        then have "checkLoop doc session ts as acc = Inr u"
          using Cons.prems(1) none Inr by simp
        from Cons.IH[OF this Cons.prems(2)] show ?thesis by auto
      qed
    qed
  qed
qed

lemma first_session_requirement:
  "\<forall>a \<in> set getAchievementsToCheck. achievementId a = ''first_session'' \<longrightarrow>
      requirement a doc session = Inr (jge (totalSessions (progress doc)) (Fin 1))"
  by (simp add: getAchievementsToCheck_def)

lemma first_session_not_in_updates:
  assumes "checkLoop doc session ts getAchievementsToCheck [] = Inr u"
    and "\<not> jge (totalSessions (progress doc)) (Fin 1)"
  shows "''first_session'' \<notin> fst ` set u"
proof
  assume "''first_session'' \<in> fst ` set u"
  from checkLoop_ids[OF assms(1) this] obtain a where
    "a \<in> set getAchievementsToCheck" "achievementId a = ''first_session''"
    "requirement a doc session = Inr True" by auto
  then show False using first_session_requirement[of doc session] assms(2) by auto
qed

lemma unlocked_not_again:
  assumes "checkLoop doc session ts as [] = Inr u" "achievements doc k \<noteq> None"
  shows "k \<notin> fst ` set u"
  using checkLoop_ids[OF assms(1), of k] assms(2) by auto

text \<open>
  Claim C1, on the code. The claim has first_session unlocked by the user's first session,
  each requirement being evaluated on the progress and skills updated by that call. In the
  code the requirements are evaluated on the document loaded before the update: for a user
  whose loaded and stored document has totalSessions 0 and no first_session achievement,
  the first call stores totalSessions 1 and does not unlock first_session.
\<close>

theorem first_session_not_unlocked_by_first_call:
  assumes "currentUser s = Some uid" "userDoc s = Some doc" "users s uid = Some doc"
    and "\<not> isNullish (skills doc)" "\<not> isNullish (skillsGained session)"
    and "totalSessions (progress doc) = Fin 0" "achievements doc ''first_session'' = None"
  shows "\<exists>doc'. fst (saveSessionResults e s session) = Inr (Success (length (sessions s))) \<and>
           userDoc (fst (snd (saveSessionResults e s session))) = Some doc' \<and>
           users (fst (snd (saveSessionResults e s session))) uid = Some doc' \<and>
           totalSessions (progress doc') = Fin 1 \<and>
           ''first_session'' \<notin> set (snd (snd (saveSessionResults e s session))) \<and>
           achievements doc' ''first_session'' = None"
proof -
  obtain newSkills updates where
    up: "checkLoop doc session (serverNow e) getAchievementsToCheck [] = Inr updates" and
    r: "saveSessionResults e s session =
             (Inr (Success (length (sessions s))),
              s\<lparr> userDoc := Some (applyUpdates updates
                                      (performUpdate e (progress doc) session newSkills doc)),
                 users := (users s)(uid \<mapsto> applyUpdates updates
                                      (performUpdate e (progress doc) session newSkills doc)),
                 sessions := sessions s @ [(uid, session, serverNow e)] \<rparr>,
              map fst updates)"
    using saveSessionResults_ok[OF assms(1-5), of e] by blast
  have nu: "''first_session'' \<notin> fst ` set updates"
    using first_session_not_in_updates[OF up] assms(6) by simp
  then have m: "map_of updates ''first_session'' = None"
    by (simp add: map_of_eq_None_iff)
  have t: "newTotalSessions (progress doc) = Fin 1"
    using assms(6) by (simp add: newTotalSessions_def)
  show ?thesis
    unfolding r using t nu m assms(7)
    by (simp add: applyUpdates_def performUpdate_def map_add_def)
qed

theorem first_session_not_unlocked_by_first_call_witness:
  "\<exists>doc'. fst (saveSessionResults (dayEnv 0) (syncedState ''u'' initialData) (plainSession 80))
             = Inr (Success 0) \<and>
      userDoc (fst (snd (saveSessionResults (dayEnv 0) (syncedState ''u'' initialData)
                 (plainSession 80)))) = Some doc' \<and>
      totalSessions (progress doc') = Fin 1 \<and>
      ''first_session'' \<notin> set (snd (snd (saveSessionResults (dayEnv 0)
                 (syncedState ''u'' initialData) (plainSession 80)))) \<and>
      achievements doc' ''first_session'' = None"
  using first_session_not_unlocked_by_first_call[of "syncedState ''u'' initialData" "''u''"
      initialData "plainSession 80" "dayEnv 0"]
  by (auto simp add: syncedState_def initialData_def plainSession_def)

text \<open>The first call leaves the document \<open>afterFirst\<close>; the second call, on that state,
  unlocks first_session.\<close>

lemma first_call_state:
  "saveSessionResults (dayEnv 0) (syncedState ''u'' initialData) (plainSession 80) =
     (Inr (Success 0),
      (syncedState ''u'' afterFirst)\<lparr> sessions := [(''u'', plainSession 80, 0)] \<rparr>, [])"
  by (simp add: save_defs syncedState_def initialData_def plainSession_def dayEnv_def afterFirst_def)

lemma second_call_unlocks:
  "snd (snd (saveSessionResults (dayEnv 1)
      ((syncedState ''u'' afterFirst)\<lparr> sessions := [(''u'', plainSession 80, 0)] \<rparr>) (plainSession 80)))
    = [''first_session'']"
  by (simp add: save_defs syncedState_def plainSession_def dayEnv_def afterFirst_def)

end
